theory Spec2Isabelle
  imports
    Complex_Main
    "HOL-Library.Multiset"
    "HOL-Library.Char_ord"
    "HOL-Library.List_Lexorder"
    "HOL-Library.Product_Lexorder"
    "HOL-Library.Sublist"
begin

section \<open>Values of JavaScript objects and of table cells\<close>

text \<open>
  A JSON value, as \<^verbatim>\<open>JSON.stringify\<close> writes it and \<^verbatim>\<open>JSON.parse\<close> reads it back.
  Numbers are integers here; \<^verbatim>\<open>undefined\<close>, functions and \<^verbatim>\<open>Date\<close> objects are not JSON values.
\<close>

datatype json =
    JNull
  | JBool bool
  | JNum int
  | JStr string
  | JArr "json list"
  | JObj "(string \<times> json) list"

text \<open>
  A cell of a SQLite table. A timestamp column holds the text of \<^verbatim>\<open>Date.toISOString()\<close>,
  which has a fixed width for the years 0000 to 9999, so that comparing two such texts compares
  the instants; the model keeps the instant itself, in milliseconds since the epoch, as
  \<open>SInt\<close>. A column written with \<^verbatim>\<open>JSON.stringify(v)\<close> holds the cell \<open>SJson v\<close>: its text is
  \<open>JSON_stringify v\<close> and \<^verbatim>\<open>JSON.parse\<close> of that text is \<open>v\<close> again.
\<close>

datatype sql_value = SNull | SInt int | SText string | SJson json

function show_nat :: "nat \<Rightarrow> string" where
  "show_nat n =
     (if n < 10 then [char_of (48 + n)]
      else show_nat (n div 10) @ [char_of (48 + n mod 10)])"
  by pat_completeness auto
termination
  by (relation "measure id") auto

declare show_nat.simps [simp del]

definition show_int :: "int \<Rightarrow> string" where
  "show_int i = (if i < 0 then CHR ''-'' # show_nat (nat (- i)) else show_nat (nat i))"

definition hex_digit :: "nat \<Rightarrow> char" where
  "hex_digit d = (if d < 10 then char_of (48 + d) else char_of (87 + d))"

definition json_escape :: "char \<Rightarrow> string" where
  "json_escape c =
     (let n = (of_char c :: nat) in
      if n = 34 then [CHR 0x5C, CHR 0x22]
      else if n = 92 then [CHR 0x5C, CHR 0x5C]
      else if n = 8 then [CHR 0x5C, CHR ''b'']
      else if n = 9 then [CHR 0x5C, CHR ''t'']
      else if n = 10 then [CHR 0x5C, CHR ''n'']
      else if n = 12 then [CHR 0x5C, CHR ''f'']
      else if n = 13 then [CHR 0x5C, CHR ''r'']
      else if n < 32 then
        [CHR 0x5C, CHR ''u'', CHR ''0'', CHR ''0'', hex_digit (n div 16), hex_digit (n mod 16)]
      else [c])"

definition json_quote :: "string \<Rightarrow> string" where
  "json_quote s = CHR 0x22 # concat (map json_escape s) @ [CHR 0x22]"

text \<open>\<^verbatim>\<open>Array.prototype.join\<close> on texts.\<close>

fun join :: "string \<Rightarrow> string list \<Rightarrow> string" where
  "join sep [] = []"
| "join sep [x] = x"
| "join sep (x # y # ys) = x @ sep @ join sep (y # ys)"

primrec JSON_stringify :: "json \<Rightarrow> string" where
  "JSON_stringify JNull = ''null''"
| "JSON_stringify (JBool b) = (if b then ''true'' else ''false'')"
| "JSON_stringify (JNum n) = show_int n"
| "JSON_stringify (JStr s) = json_quote s"
| "JSON_stringify (JArr xs) = ''['' @ join '','' (map JSON_stringify xs) @ '']''"
| "JSON_stringify (JObj kvs) =
     ''{'' @ join '','' (map (\<lambda>(k, v). json_quote k @ '':'' @ v)
                          (map (map_prod id JSON_stringify) kvs)) @ ''}''"

definition is_upper :: "char \<Rightarrow> bool" where
  "is_upper c = (65 \<le> (of_char c :: nat) \<and> (of_char c :: nat) \<le> 90)"

definition ascii_lower :: "char \<Rightarrow> char" where
  "ascii_lower c = (if is_upper c then char_of ((of_char c :: nat) + 32) else c)"

text \<open>
  \<^verbatim>\<open>str.replace(/[A-Z]/g, letter => `_${letter.toLowerCase()}`)\<close>, the helper of both
  repositories.
\<close>

fun camelToSnakeCase :: "string \<Rightarrow> string" where
  "camelToSnakeCase [] = []"
| "camelToSnakeCase (c # cs) =
     (if is_upper c then CHR ''_'' # ascii_lower c # camelToSnakeCase cs
      else c # camelToSnakeCase cs)"

section \<open>The SQL statements the repositories issue\<close>

text \<open>
  The text of a cell, as the engine reads it for \<^verbatim>\<open>LIKE\<close> and for comparison with a text.
\<close>

fun cell_text :: "sql_value \<Rightarrow> string option" where
  "cell_text SNull = None"
| "cell_text (SInt n) = Some (show_int n)"
| "cell_text (SText s) = Some s"
| "cell_text (SJson j) = Some (JSON_stringify j)"

text \<open>
  SQLite's \<^verbatim>\<open>LIKE\<close> with its defaults: \<^verbatim>\<open>%\<close> stands for any run of characters, \<^verbatim>\<open>_\<close> for
  exactly one, there is no escape character, and ASCII letters match without regard to case.
  The first argument is the pattern.
\<close>

fun like_match :: "string \<Rightarrow> string \<Rightarrow> bool" where
  "like_match [] ts = (ts = [])"
| "like_match (p # ps) [] = (p = CHR ''%'' \<and> like_match ps [])"
| "like_match (p # ps) (t # ts) =
     (if p = CHR ''%'' then like_match ps (t # ts) \<or> like_match (p # ps) ts
      else (p = CHR ''_'' \<or> ascii_lower p = ascii_lower t) \<and> like_match ps ts)"

text \<open>
  The conditions of the \<^verbatim>\<open>WHERE\<close> clauses, with the bound parameters in place of the
  question marks. SQL's logic has three values; \<open>None\<close> is \<^verbatim>\<open>NULL\<close>.
\<close>

datatype cond =
    Eq_text string string
  | In_list string "string list"
  | Ge string int
  | Le string int
  | Gt string int
  | Lt string int
  | Like string string
  | Is_null string
  | Is_not_null string
  | Or_list "cond list"
  | And2 cond cond

definition sql_and :: "bool option \<Rightarrow> bool option \<Rightarrow> bool option" where
  "sql_and a b =
     (if a = Some False \<or> b = Some False then Some False
      else if a = None \<or> b = None then None else Some True)"

definition sql_or :: "bool option \<Rightarrow> bool option \<Rightarrow> bool option" where
  "sql_or a b =
     (if a = Some True \<or> b = Some True then Some True
      else if a = None \<or> b = None then None else Some False)"

text \<open>
  Comparison of a cell with a number: \<^verbatim>\<open>NULL\<close> gives \<^verbatim>\<open>NULL\<close>, and a text is greater than
  every number. The flag says what a text cell answers.
\<close>

fun cmp_num :: "(int \<Rightarrow> int \<Rightarrow> bool) \<Rightarrow> bool \<Rightarrow> sql_value \<Rightarrow> int \<Rightarrow> bool option" where
  "cmp_num rel txt SNull k = None"
| "cmp_num rel txt (SInt n) k = Some (rel n k)"
| "cmp_num rel txt (SText s) k = Some txt"
| "cmp_num rel txt (SJson j) k = Some txt"

text \<open>
  \<^verbatim>\<open>c = ?\<close> and \<^verbatim>\<open>c IN (?, ...)\<close> with text parameters, on a column of text affinity: the text
  of the cell is among the parameters.
\<close>

definition in_texts :: "sql_value \<Rightarrow> string list \<Rightarrow> bool option" where
  "in_texts v xs = map_option (\<lambda>s. s \<in> set xs) (cell_text v)"

primrec eval_cond :: "(string \<Rightarrow> sql_value) \<Rightarrow> cond \<Rightarrow> bool option" where
  "eval_cond r (Eq_text c x) = in_texts (r c) [x]"
| "eval_cond r (In_list c xs) = in_texts (r c) xs"
| "eval_cond r (Ge c k) = cmp_num (\<lambda>a b. a \<ge> b) True (r c) k"
| "eval_cond r (Le c k) = cmp_num (\<lambda>a b. a \<le> b) False (r c) k"
| "eval_cond r (Gt c k) = cmp_num (\<lambda>a b. a > b) True (r c) k"
| "eval_cond r (Lt c k) = cmp_num (\<lambda>a b. a < b) False (r c) k"
| "eval_cond r (Like c p) = map_option (like_match p) (cell_text (r c))"
| "eval_cond r (Is_null c) = Some (r c = SNull)"
| "eval_cond r (Is_not_null c) = Some (r c \<noteq> SNull)"
| "eval_cond r (Or_list cs) = foldr sql_or (map (eval_cond r) cs) (Some False)"
| "eval_cond r (And2 a b) = sql_and (eval_cond r a) (eval_cond r b)"

text \<open>
  \<^verbatim>\<open>' WHERE ' + conditions.join(' AND ')\<close>: a row is selected when the conjunction is true;
  with no condition there is no \<^verbatim>\<open>WHERE\<close> clause.
\<close>

definition where_clause :: "cond list \<Rightarrow> (string \<Rightarrow> sql_value) \<Rightarrow> bool" where
  "where_clause conds r = (foldr sql_and (map (eval_cond r) conds) (Some True) = Some True)"

text \<open>
  The order of cells under \<^verbatim>\<open>ORDER BY\<close>: \<^verbatim>\<open>NULL\<close> first, then numbers, then texts.
\<close>

fun order_key :: "sql_value \<Rightarrow> nat \<times> int \<times> string" where
  "order_key SNull = (0, 0, [])"
| "order_key (SInt n) = (1, n, [])"
| "order_key (SText s) = (2, 0, s)"
| "order_key (SJson j) = (2, 0, JSON_stringify j)"

fun insert_by :: "('a \<Rightarrow> 'a \<Rightarrow> bool) \<Rightarrow> 'a \<Rightarrow> 'a list \<Rightarrow> 'a list" where
  "insert_by le x [] = [x]"
| "insert_by le x (y # ys) = (if le x y then x # y # ys else y # insert_by le x ys)"

definition sort_by :: "('a \<Rightarrow> 'a \<Rightarrow> bool) \<Rightarrow> 'a list \<Rightarrow> 'a list" where
  "sort_by le xs = foldr (insert_by le) xs []"

text \<open>
  \<^verbatim>\<open>ORDER BY col DESC\<close>. SQL leaves the order of rows with equal keys open; the model keeps
  them in table order, and no theorem below depends on that choice.
\<close>

definition desc_le :: "string \<Rightarrow> (string \<Rightarrow> sql_value) \<Rightarrow> (string \<Rightarrow> sql_value) \<Rightarrow> bool" where
  "desc_le c a b = (order_key (a c) \<ge> order_key (b c))"

definition order_by_desc :: "string \<Rightarrow> (string \<Rightarrow> sql_value) list \<Rightarrow> (string \<Rightarrow> sql_value) list" where
  "order_by_desc c rows = sort_by (desc_le c) rows"


section \<open>The store\<close>

text \<open>
  A row gives every column its cell; a column the row was never given holds \<^verbatim>\<open>NULL\<close>. The
  store has the three tables the repositories read and write.
\<close>

type_synonym row = "string \<Rightarrow> sql_value"

record db =
  test_runs :: "row list"
  test_results :: "row list"
  screenshots :: "row list"

definition mk_row :: "(string \<times> sql_value) list \<Rightarrow> row" where
  "mk_row kvs = (\<lambda>c. case map_of kvs c of Some v \<Rightarrow> v | None \<Rightarrow> SNull)"

text \<open>
  The failures of a statement or of a repository call. The repositories throw a plain
  \<^verbatim>\<open>Error\<close> with the message "Test run not found: id" or "Test result not found: id";
  \<open>NotFound\<close> carries the id. The other two are the engine's own errors.
\<close>

datatype db_error = NotFound string | NoSuchColumn string | ConstraintFailed

definition run_columns :: "string list" where
  "run_columns =
     [''id'', ''start_time'', ''end_time'', ''duration'', ''total_tests'', ''passed'', ''failed'',
      ''skipped'', ''pending'', ''retries'', ''browser_name'', ''browser_version'',
      ''cypress_version'', ''spec_files'', ''config'', ''ci_info'', ''status'', ''created_at'',
      ''updated_at'']"

definition result_columns :: "string list" where
  "result_columns =
     [''id'', ''run_id'', ''title'', ''full_title'', ''state'', ''duration'', ''error_name'',
      ''error_message'', ''error_stack'', ''error_diff'', ''screenshot_path'', ''retries'',
      ''current_retry'', ''pending'', ''file'', ''parent'', ''context'', ''tags'', ''start_time'',
      ''end_time'', ''browser_name'', ''browser_version'', ''viewport_width'', ''viewport_height'',
      ''created_at'', ''updated_at'']"

definition run_statuses :: "string list" where
  "run_statuses = [''running'', ''completed'', ''failed'', ''cancelled'']"

definition result_states :: "string list" where
  "result_states = [''passed'', ''failed'', ''skipped'', ''pending'', ''retried'']"

text \<open>
  The column constraints of \<^verbatim>\<open>createTestRunsTable\<close> and \<^verbatim>\<open>createTestResultsTable\<close> on one row:
  \<^verbatim>\<open>NOT NULL\<close> and \<^verbatim>\<open>CHECK\<close> (which a \<^verbatim>\<open>NULL\<close> passes). The foreign key of a result needs its
  run among the ids given.
\<close>

definition check_in :: "sql_value \<Rightarrow> string list \<Rightarrow> bool" where
  "check_in v xs = (in_texts v xs \<noteq> Some False)"

definition run_row_ok :: "row \<Rightarrow> bool" where
  "run_row_ok r = (r ''start_time'' \<noteq> SNull \<and> check_in (r ''status'') run_statuses)"

definition result_row_ok :: "sql_value list \<Rightarrow> row \<Rightarrow> bool" where
  "result_row_ok run_ids t =
     (t ''run_id'' \<noteq> SNull \<and> t ''title'' \<noteq> SNull \<and> t ''full_title'' \<noteq> SNull \<and>
      t ''state'' \<noteq> SNull \<and> check_in (t ''state'') result_states \<and>
      t ''run_id'' \<in> set run_ids)"

text \<open>
  \<^verbatim>\<open>SET c1 = ?, c2 = ?, ...\<close> on one row; of two assignments to one column the right one
  stays.
\<close>

definition assign :: "(string \<times> sql_value) list \<Rightarrow> row \<Rightarrow> row" where
  "assign sets r = foldl (\<lambda>r' (c, v). r'(c := v)) r sets"

text \<open>
  A row after \<^verbatim>\<open>UPDATE\<close>: the assignments, then the trigger that sets \<^verbatim>\<open>updated_at\<close> to
  \<^verbatim>\<open>CURRENT_TIMESTAMP\<close>.
\<close>

definition updated_row :: "(string \<times> sql_value) list \<Rightarrow> int \<Rightarrow> row \<Rightarrow> row" where
  "updated_row sets now r = (assign sets r)(''updated_at'' := SInt now)"

text \<open>
  \<^verbatim>\<open>UPDATE test_runs SET ... WHERE id = ?\<close>. A column the table does not have fails the
  statement before any row is looked at. The trigger \<^verbatim>\<open>trg_test_runs_updated_at\<close> then sets
  \<^verbatim>\<open>updated_at\<close> of every updated row to \<^verbatim>\<open>CURRENT_TIMESTAMP\<close>. The number returned is
  \<^verbatim>\<open>changes\<close>.
\<close>

definition sql_update_runs ::
  "(string \<times> sql_value) list \<Rightarrow> string \<Rightarrow> int \<Rightarrow> db \<Rightarrow> (db_error + nat) \<times> db" where
  "sql_update_runs sets ident now d =
     (case find (\<lambda>c. c \<notin> set run_columns) (map fst sets) of
        Some c \<Rightarrow> (Inl (NoSuchColumn c), d)
      | None \<Rightarrow>
          let hit = (\<lambda>r. where_clause [Eq_text ''id'' ident] r) in
          if \<exists>r \<in> set (filter hit (test_runs d)). \<not> run_row_ok (assign sets r)
          then (Inl ConstraintFailed, d)
          else (Inr (length (filter hit (test_runs d))),
                d\<lparr>test_runs :=
                    map (\<lambda>r. if hit r then updated_row sets now r else r)
                      (test_runs d)\<rparr>))"

text \<open>The same statement on \<^verbatim>\<open>test_results\<close>, with \<^verbatim>\<open>trg_test_results_updated_at\<close>.\<close>

definition sql_update_results ::
  "(string \<times> sql_value) list \<Rightarrow> string \<Rightarrow> int \<Rightarrow> db \<Rightarrow> (db_error + nat) \<times> db" where
  "sql_update_results sets ident now d =
     (case find (\<lambda>c. c \<notin> set result_columns) (map fst sets) of
        Some c \<Rightarrow> (Inl (NoSuchColumn c), d)
      | None \<Rightarrow>
          let hit = (\<lambda>t. where_clause [Eq_text ''id'' ident] t);
              run_ids = map (\<lambda>r. r ''id'') (test_runs d) in
          if \<exists>t \<in> set (filter hit (test_results d)). \<not> result_row_ok run_ids (assign sets t)
          then (Inl ConstraintFailed, d)
          else (Inr (length (filter hit (test_results d))),
                d\<lparr>test_results :=
                    map (\<lambda>t. if hit t then updated_row sets now t else t)
                      (test_results d)\<rparr>))"

text \<open>
  \<^verbatim>\<open>DELETE FROM test_runs WHERE ...\<close> under \<^verbatim>\<open>PRAGMA foreign_keys = ON\<close>: the foreign key of
  \<^verbatim>\<open>test_results.run_id\<close> is \<^verbatim>\<open>ON DELETE CASCADE\<close>, and so is the one of
  \<^verbatim>\<open>screenshots.test_result_id\<close> (the trigger \<^verbatim>\<open>trg_test_results_delete_screenshots\<close> deletes
  the same screenshots). \<^verbatim>\<open>changes\<close> counts the rows of \<^verbatim>\<open>test_runs\<close> only.
\<close>

definition refers :: "string \<Rightarrow> sql_value list \<Rightarrow> row \<Rightarrow> bool" where
  "refers c ids x = (x c \<noteq> SNull \<and> x c \<in> set ids)"

definition sql_delete_runs :: "cond list \<Rightarrow> db \<Rightarrow> nat \<times> db" where
  "sql_delete_runs conds d =
     (let gone = filter (where_clause conds) (test_runs d);
          gone_ids = map (\<lambda>r. r ''id'') gone;
          gone_results = filter (refers ''run_id'' gone_ids) (test_results d);
          gone_result_ids = map (\<lambda>t. t ''id'') gone_results
      in (length gone,
          \<lparr>test_runs = filter (\<lambda>r. \<not> where_clause conds r) (test_runs d),
           test_results = filter (\<lambda>t. \<not> refers ''run_id'' gone_ids t) (test_results d),
           screenshots =
             filter (\<lambda>s. \<not> refers ''test_result_id'' gone_result_ids s) (screenshots d)\<rparr>))"

text \<open>\<^verbatim>\<open>DELETE FROM screenshots WHERE ...\<close>; nothing depends on a screenshot.\<close>

definition sql_delete_screenshots :: "cond list \<Rightarrow> db \<Rightarrow> nat \<times> db" where
  "sql_delete_screenshots conds d =
     (length (filter (where_clause conds) (screenshots d)),
      d\<lparr>screenshots := filter (\<lambda>s. \<not> where_clause conds s) (screenshots d)\<rparr>)"

text \<open>
  \<^verbatim>\<open>INSERT INTO test_runs\<close>: the primary key must be new and the row must pass the column
  constraints.
\<close>

definition sql_insert_run :: "row \<Rightarrow> db \<Rightarrow> (db_error + unit) \<times> db" where
  "sql_insert_run r d =
     (if (\<exists>x \<in> set (test_runs d). cell_text (x ''id'') \<noteq> None \<and>
            cell_text (x ''id'') = cell_text (r ''id'')) \<or> \<not> run_row_ok r
      then (Inl ConstraintFailed, d)
      else (Inr (), d\<lparr>test_runs := test_runs d @ [r]\<rparr>))"

section \<open>Entities\<close>

text \<open>
  The interfaces of \<^verbatim>\<open>src/types/index.ts\<close>. A field name may occur in one record only, so the
  fields carry the initial of their interface: \<open>t_\<close> for \<^verbatim>\<open>TestResult\<close>, \<open>r_\<close> for \<^verbatim>\<open>TestRun\<close>,
  \<open>e_\<close> for \<^verbatim>\<open>TestError\<close>, \<open>b_\<close> for \<^verbatim>\<open>BrowserInfo\<close>, \<open>v_\<close> for \<^verbatim>\<open>ViewportInfo\<close>, \<open>f_\<close> for
  \<^verbatim>\<open>TestFilter\<close> and \<open>k_\<close> for \<^verbatim>\<open>FlakyTest\<close>. An optional field is an \<open>option\<close>; \<open>None\<close> stands
  for \<^verbatim>\<open>undefined\<close> and for \<^verbatim>\<open>null\<close> alike. A \<^verbatim>\<open>Date\<close> is its instant in milliseconds. Of
  \<^verbatim>\<open>TestError\<close> and \<^verbatim>\<open>BrowserInfo\<close> the fields the repositories store are kept. The string enum
  \<^verbatim>\<open>TestStatus\<close> is its strings.
\<close>

definition PASSED :: string where "PASSED = ''passed''"
definition FAILED :: string where "FAILED = ''failed''"
definition SKIPPED :: string where "SKIPPED = ''skipped''"
definition PENDING :: string where "PENDING = ''pending''"
definition RETRIED :: string where "RETRIED = ''retried''"

record TestError =
  e_name :: string
  e_message :: string
  e_stack :: "string option"
  e_diff :: "string option"

record BrowserInfo =
  b_name :: string
  b_version :: string

record ViewportInfo =
  v_width :: int
  v_height :: int

record TestResult =
  t_id :: string
  t_runId :: string
  t_title :: string
  t_fullTitle :: string
  t_state :: string
  t_duration :: int
  t_error :: "TestError option"
  t_screenshot :: "string option"
  t_retries :: int
  t_currentRetry :: int
  t_pending :: bool
  t_file :: string
  t_parent :: string
  t_context :: "string option"
  t_tags :: "string list option"
  t_startTime :: int
  t_endTime :: "int option"
  t_browser :: "BrowserInfo option"
  t_viewport :: "ViewportInfo option"

record TestRun =
  r_id :: string
  r_startTime :: int
  r_endTime :: "int option"
  r_duration :: "int option"
  r_totalTests :: int
  r_passed :: int
  r_failed :: int
  r_skipped :: int
  r_pending :: int
  r_retries :: int
  r_browserName :: string
  r_browserVersion :: string
  r_cypressVersion :: string
  r_specFiles :: "string list"
  r_config :: json
  r_ciInfo :: "json option"
  r_status :: string
  r_results :: "TestResult list"

text \<open>
  \<^verbatim>\<open>TestFilter\<close>; \<open>f_dateRange\<close> is \<^verbatim>\<open>(start, end)\<close> and \<open>f_duration\<close> is \<^verbatim>\<open>(min, max)\<close>, each bound
  optional.
\<close>

record TestFilter =
  f_status :: "string list option"
  f_specFiles :: "string list option"
  f_dateRange :: "(int \<times> int) option"
  f_duration :: "(int option \<times> int option) option"
  f_search :: "string option"
  f_tags :: "string list option"
  f_browser :: "string list option"
  f_retries :: "bool option"
  f_hasScreenshots :: "bool option"

text \<open>
  \<^verbatim>\<open>FlakyTest\<close>. The title and the file are the cells of the group as the query returns them,
  and the rate is an exact fraction.
\<close>

record FlakyTest =
  k_testTitle :: sql_value
  k_specFile :: sql_value
  k_flakyRate :: rat
  k_totalRuns :: nat
  k_failures :: nat
  k_lastFailure :: int

text \<open>
  Reading a cell into a typed field. JavaScript hands the cell on as it is; a typed field
  cannot hold a cell of another class, and takes the value given here. \<^verbatim>\<open>new Date(null)\<close> is
  the epoch.
\<close>

definition as_text :: "sql_value \<Rightarrow> string" where
  "as_text v = (case cell_text v of Some s \<Rightarrow> s | None \<Rightarrow> [])"

definition as_text_opt :: "sql_value \<Rightarrow> string option" where
  "as_text_opt v = cell_text v"

fun as_int :: "sql_value \<Rightarrow> int" where
  "as_int (SInt n) = n"
| "as_int v = 0"

fun as_int_opt :: "sql_value \<Rightarrow> int option" where
  "as_int_opt (SInt n) = Some n"
| "as_int_opt v = None"

fun json_strings :: "json \<Rightarrow> string list" where
  "json_strings (JArr xs) = map (\<lambda>x. case x of JStr s \<Rightarrow> s | _ \<Rightarrow> JSON_stringify x) xs"
| "json_strings j = []"

fun as_json_opt :: "sql_value \<Rightarrow> json option" where
  "as_json_opt (SJson j) = Some j"
| "as_json_opt v = None"

text \<open>
  Whether JavaScript takes a cell for true in \<^verbatim>\<open>row.c ? ... : ...\<close>: not \<^verbatim>\<open>null\<close>, not \<^verbatim>\<open>0\<close>,
  not the empty text. A timestamp and a JSON text are never empty.
\<close>

fun truthy :: "sql_value \<Rightarrow> bool" where
  "truthy SNull = False"
| "truthy (SInt n) = (n \<noteq> 0)"
| "truthy (SText s) = (s \<noteq> [])"
| "truthy (SJson j) = True"

section \<open>TestRunRepositoryImpl\<close>

definition mapRowToTestRun :: "row \<Rightarrow> TestRun" where
  "mapRowToTestRun row =
     \<lparr>r_id = as_text (row ''id''),
      r_startTime = as_int (row ''start_time''),
      r_endTime = as_int_opt (row ''end_time''),
      r_duration = as_int_opt (row ''duration''),
      r_totalTests = as_int (row ''total_tests''),
      r_passed = as_int (row ''passed''),
      r_failed = as_int (row ''failed''),
      r_skipped = as_int (row ''skipped''),
      r_pending = as_int (row ''pending''),
      r_retries = as_int (row ''retries''),
      r_browserName = as_text (row ''browser_name''),
      r_browserVersion = as_text (row ''browser_version''),
      r_cypressVersion = as_text (row ''cypress_version''),
      r_specFiles = (case as_json_opt (row ''spec_files'') of Some j \<Rightarrow> json_strings j | None \<Rightarrow> []),
      r_config = (case as_json_opt (row ''config'') of Some j \<Rightarrow> j | None \<Rightarrow> JObj []),
      r_ciInfo = as_json_opt (row ''ci_info''),
      r_status = as_text (row ''status''),
      r_results = []\<rparr>"

text \<open>
  \<^verbatim>\<open>create\<close>. The id comes from \<^verbatim>\<open>generateId()\<close> (the clock and \<^verbatim>\<open>Math.random\<close>) and is a
  parameter here, as is the clock for the defaults of \<^verbatim>\<open>created_at\<close> and \<^verbatim>\<open>updated_at\<close>.
  \<^verbatim>\<open>x || null\<close> binds \<^verbatim>\<open>NULL\<close> for an absent \<^verbatim>\<open>x\<close> and for \<^verbatim>\<open>0\<close>.
\<close>

definition or_null :: "int option \<Rightarrow> sql_value" where
  "or_null x = (case x of None \<Rightarrow> SNull | Some n \<Rightarrow> if n = 0 then SNull else SInt n)"

definition time_or_null :: "int option \<Rightarrow> sql_value" where
  "time_or_null x = (case x of None \<Rightarrow> SNull | Some t \<Rightarrow> SInt t)"

definition create_run_params :: "TestRun \<Rightarrow> (string \<times> sql_value) list" where
  "create_run_params testRun =
     [(''id'', SText (r_id testRun)),
      (''start_time'', SInt (r_startTime testRun)),
      (''end_time'', time_or_null (r_endTime testRun)),
      (''duration'', or_null (r_duration testRun)),
      (''total_tests'', SInt (r_totalTests testRun)),
      (''passed'', SInt (r_passed testRun)),
      (''failed'', SInt (r_failed testRun)),
      (''skipped'', SInt (r_skipped testRun)),
      (''pending'', SInt (r_pending testRun)),
      (''retries'', SInt (r_retries testRun)),
      (''browser_name'', SText (r_browserName testRun)),
      (''browser_version'', SText (r_browserVersion testRun)),
      (''cypress_version'', SText (r_cypressVersion testRun)),
      (''spec_files'', SJson (JArr (map JStr (r_specFiles testRun)))),
      (''config'', SJson (r_config testRun)),
      (''ci_info'', (case r_ciInfo testRun of Some j \<Rightarrow> SJson j | None \<Rightarrow> SNull)),
      (''status'', SText (r_status testRun))]"

definition create_run :: "TestRun \<Rightarrow> string \<Rightarrow> int \<Rightarrow> db \<Rightarrow> (db_error + TestRun) \<times> db" where
  "create_run run new_id now d =
     (let testRun = run\<lparr>r_id := new_id\<rparr>;
          row = mk_row (create_run_params testRun
                        @ [(''created_at'', SInt now), (''updated_at'', SInt now)])
      in case sql_insert_run row d of
           (Inl e, d') \<Rightarrow> (Inl e, d')
         | (Inr u, d') \<Rightarrow> (Inr testRun, d'))"

definition findById_run :: "string \<Rightarrow> db \<Rightarrow> TestRun option" where
  "findById_run ident d =
     map_option mapRowToTestRun (find (where_clause [Eq_text ''id'' ident]) (test_runs d))"

definition mapTestStatusToRunStatus :: "string list \<Rightarrow> string list" where
  "mapTestStatusToRunStatus testStatuses =
     (let runStatuses =
            (if ''failed'' \<in> set testStatuses then [''failed''] else [])
            @ (if ''passed'' \<in> set testStatuses then [''completed''] else [])
      in rev (remdups (rev runStatuses)))"

definition findAll_conditions :: "TestFilter option \<Rightarrow> cond list" where
  "findAll_conditions filters =
     (case filters of
        None \<Rightarrow> []
      | Some f \<Rightarrow>
          (case f_dateRange f of
             Some (s, e) \<Rightarrow> [And2 (Ge ''start_time'' s) (Le ''start_time'' e)]
           | None \<Rightarrow> [])
          @ (case f_browser f of
               Some bs \<Rightarrow> if length bs > 0 then [In_list ''browser_name'' bs] else []
             | None \<Rightarrow> [])
          @ (case f_status f of
               Some ss \<Rightarrow>
                 if length ss > 0
                 then (let runStatuses = mapTestStatusToRunStatus ss
                       in if length runStatuses > 0 then [In_list ''status'' runStatuses] else [])
                 else []
             | None \<Rightarrow> []))"

definition findAll_rows :: "TestFilter option \<Rightarrow> db \<Rightarrow> row list" where
  "findAll_rows filters d =
     order_by_desc ''start_time'' (filter (where_clause (findAll_conditions filters)) (test_runs d))"

definition findAll :: "TestFilter option \<Rightarrow> db \<Rightarrow> TestRun list" where
  "findAll filters d = map mapRowToTestRun (findAll_rows filters d)"

text \<open>
  \<^verbatim>\<open>Partial<TestRun>\<close>: every key of \<^verbatim>\<open>TestRun\<close>, each absent (or \<^verbatim>\<open>undefined\<close>) or with a
  value of its type.
\<close>

record TestRun_patch =
  pr_id :: "string option"
  pr_startTime :: "int option"
  pr_endTime :: "int option"
  pr_duration :: "int option"
  pr_totalTests :: "int option"
  pr_passed :: "int option"
  pr_failed :: "int option"
  pr_skipped :: "int option"
  pr_pending :: "int option"
  pr_retries :: "int option"
  pr_browserName :: "string option"
  pr_browserVersion :: "string option"
  pr_cypressVersion :: "string option"
  pr_specFiles :: "string list option"
  pr_config :: "json option"
  pr_ciInfo :: "json option"
  pr_status :: "string option"
  pr_results :: "TestResult list option"

text \<open>
  One turn of the loop \<^verbatim>\<open>Object.entries(updates).forEach(([key, value]) => ...)\<close>: the key,
  the value as it is bound when the key takes the last branch, and whether the value is
  defined. Nothing is pushed for \<^verbatim>\<open>undefined\<close> and for the key \<^verbatim>\<open>id\<close>.
\<close>

definition set_entry :: "string \<Rightarrow> 'a option \<Rightarrow> ('a \<Rightarrow> sql_value) \<Rightarrow> (string \<times> sql_value) list" where
  "set_entry key value bound =
     (case value of
        None \<Rightarrow> []
      | Some v \<Rightarrow> if key \<noteq> ''id'' then [(camelToSnakeCase key, bound v)] else [])"

text \<open>
  An array handed to the driver as it is, which binds the text \<^verbatim>\<open>String(value)\<close>: for an array
  of objects \<^verbatim>\<open>[object Object]\<close>, once for each, with commas.
\<close>

definition bound_objects :: "'a list \<Rightarrow> sql_value" where
  "bound_objects xs = SText (join '','' (map (\<lambda>x. ''[object Object]'') xs))"

text \<open>
  The \<^verbatim>\<open>SET\<close> clause and its parameters that \<^verbatim>\<open>update\<close> builds, the loop unrolled over the keys
  of \<^verbatim>\<open>Partial<TestRun>\<close> in the order of the interface. The keys \<^verbatim>\<open>startTime\<close> and \<^verbatim>\<open>endTime\<close>
  take the first branch (\<^verbatim>\<open>toISOString\<close>), \<^verbatim>\<open>specFiles\<close>, \<^verbatim>\<open>config\<close> and \<^verbatim>\<open>ciInfo\<close> the second
  (\<^verbatim>\<open>JSON.stringify\<close>), every other key the last, which binds the value as it is.
\<close>

definition run_set_clause :: "TestRun_patch \<Rightarrow> (string \<times> sql_value) list" where
  "run_set_clause p =
     set_entry ''id'' (pr_id p) SText
     @ set_entry ''startTime'' (pr_startTime p) SInt
     @ set_entry ''endTime'' (pr_endTime p) SInt
     @ set_entry ''duration'' (pr_duration p) SInt
     @ set_entry ''totalTests'' (pr_totalTests p) SInt
     @ set_entry ''passed'' (pr_passed p) SInt
     @ set_entry ''failed'' (pr_failed p) SInt
     @ set_entry ''skipped'' (pr_skipped p) SInt
     @ set_entry ''pending'' (pr_pending p) SInt
     @ set_entry ''retries'' (pr_retries p) SInt
     @ set_entry ''browserName'' (pr_browserName p) SText
     @ set_entry ''browserVersion'' (pr_browserVersion p) SText
     @ set_entry ''cypressVersion'' (pr_cypressVersion p) SText
     @ set_entry ''specFiles'' (pr_specFiles p) (\<lambda>xs. SJson (JArr (map JStr xs)))
     @ set_entry ''config'' (pr_config p) SJson
     @ set_entry ''ciInfo'' (pr_ciInfo p) SJson
     @ set_entry ''status'' (pr_status p) SText
     @ set_entry ''results'' (pr_results p) bound_objects"

text \<open>
  \<^verbatim>\<open>update\<close>: with an empty \<^verbatim>\<open>SET\<close> clause it returns at once; otherwise it runs the
  statement and throws when no row changed.
\<close>

definition update_run :: "string \<Rightarrow> TestRun_patch \<Rightarrow> int \<Rightarrow> db \<Rightarrow> (db_error + unit) \<times> db" where
  "update_run ident updates now d =
     (let setClause = run_set_clause updates in
      if length setClause = 0 then (Inr (), d)
      else case sql_update_runs setClause ident now d of
             (Inl e, d') \<Rightarrow> (Inl e, d')
           | (Inr changes, d') \<Rightarrow>
               if changes = 0 then (Inl (NotFound ident), d') else (Inr (), d'))"

definition delete_run :: "string \<Rightarrow> db \<Rightarrow> (db_error + unit) \<times> db" where
  "delete_run ident d =
     (case sql_delete_runs [Eq_text ''id'' ident] d of
        (changes, d') \<Rightarrow> if changes = 0 then (Inl (NotFound ident), d') else (Inr (), d'))"

definition deleteOlderThan :: "int \<Rightarrow> db \<Rightarrow> nat \<times> db" where
  "deleteOlderThan date d = sql_delete_runs [Lt ''start_time'' date] d"

section \<open>TestResultRepositoryImpl\<close>

definition mapRowToTestResult :: "row \<Rightarrow> TestResult" where
  "mapRowToTestResult row =
     \<lparr>t_id = as_text (row ''id''),
      t_runId = as_text (row ''run_id''),
      t_title = as_text (row ''title''),
      t_fullTitle = as_text (row ''full_title''),
      t_state = as_text (row ''state''),
      t_duration = as_int (row ''duration''),
      t_error =
        (if truthy (row ''error_name'')
         then Some \<lparr>e_name = as_text (row ''error_name''),
                    e_message = as_text (row ''error_message''),
                    e_stack = as_text_opt (row ''error_stack''),
                    e_diff = as_text_opt (row ''error_diff'')\<rparr>
         else None),
      t_screenshot = as_text_opt (row ''screenshot_path''),
      t_retries = as_int (row ''retries''),
      t_currentRetry = as_int (row ''current_retry''),
      t_pending = truthy (row ''pending''),
      t_file = as_text (row ''file''),
      t_parent = as_text (row ''parent''),
      t_context = as_text_opt (row ''context''),
      t_tags = map_option json_strings (as_json_opt (row ''tags'')),
      t_startTime = as_int (row ''start_time''),
      t_endTime = as_int_opt (row ''end_time''),
      t_browser =
        (if truthy (row ''browser_name'')
         then Some \<lparr>b_name = as_text (row ''browser_name''),
                    b_version = as_text (row ''browser_version'')\<rparr>
         else None),
      t_viewport =
        (if truthy (row ''viewport_width'')
         then Some \<lparr>v_width = as_int (row ''viewport_width''),
                    v_height = as_int (row ''viewport_height'')\<rparr>
         else None)\<rparr>"

text \<open>
  The conditions \<^verbatim>\<open>findWithFilters\<close> pushes, in its order. A list that is absent or empty, an
  absent or empty search text and \<^verbatim>\<open>retries\<close> absent or false push nothing.
\<close>

definition cond_in :: "string \<Rightarrow> string list option \<Rightarrow> cond list" where
  "cond_in c xs = (case xs of Some ys \<Rightarrow> if length ys > 0 then [In_list c ys] else [] | None \<Rightarrow> [])"

definition search_pattern :: "string \<Rightarrow> string" where
  "search_pattern s = ''%'' @ s @ ''%''"

definition tag_pattern :: "string \<Rightarrow> string" where
  "tag_pattern tag = ''%'' @ [CHR 0x22] @ tag @ [CHR 0x22] @ ''%''"

definition findWithFilters_conditions :: "TestFilter \<Rightarrow> cond list" where
  "findWithFilters_conditions filters =
     cond_in ''state'' (f_status filters)
     @ cond_in ''file'' (f_specFiles filters)
     @ (case f_duration filters of
          Some (mn, mx) \<Rightarrow>
            (case mn of Some k \<Rightarrow> [Ge ''duration'' k] | None \<Rightarrow> [])
            @ (case mx of Some k \<Rightarrow> [Le ''duration'' k] | None \<Rightarrow> [])
        | None \<Rightarrow> [])
     @ (case f_search filters of
          Some s \<Rightarrow>
            if s \<noteq> []
            then (let searchTerm = search_pattern s
                  in [Or_list [Like ''title'' searchTerm, Like ''full_title'' searchTerm,
                               Like ''error_message'' searchTerm]])
            else []
        | None \<Rightarrow> [])
     @ (case f_tags filters of
          Some ts \<Rightarrow>
            if length ts > 0 then [Or_list (map (\<lambda>tag. Like ''tags'' (tag_pattern tag)) ts)] else []
        | None \<Rightarrow> [])
     @ cond_in ''browser_name'' (f_browser filters)
     @ (case f_retries filters of Some b \<Rightarrow> if b then [Gt ''retries'' 0] else [] | None \<Rightarrow> [])
     @ (case f_hasScreenshots filters of
          Some b \<Rightarrow> if b then [Is_not_null ''screenshot_path''] else [Is_null ''screenshot_path'']
        | None \<Rightarrow> [])
     @ (case f_dateRange filters of
          Some (s, e) \<Rightarrow> [And2 (Ge ''start_time'' s) (Le ''start_time'' e)]
        | None \<Rightarrow> [])"

text \<open>
  \<^verbatim>\<open>LIMIT\<close> is added for a limit that is neither absent nor \<^verbatim>\<open>0\<close>, and \<^verbatim>\<open>OFFSET\<close> only with
  a \<^verbatim>\<open>LIMIT\<close> and for an offset that is neither absent nor \<^verbatim>\<open>0\<close>.
\<close>

definition page :: "nat option \<Rightarrow> nat option \<Rightarrow> 'a list \<Rightarrow> 'a list" where
  "page limit offset rows =
     (case limit of
        None \<Rightarrow> rows
      | Some l \<Rightarrow>
          if l = 0 then rows
          else (case offset of
                  None \<Rightarrow> take l rows
                | Some off \<Rightarrow> if off = 0 then take l rows else take l (drop off rows)))"

definition findWithFilters_rows :: "TestFilter \<Rightarrow> nat option \<Rightarrow> nat option \<Rightarrow> db \<Rightarrow> row list" where
  "findWithFilters_rows filters limit offset d =
     page limit offset
       (order_by_desc ''start_time''
          (filter (where_clause (findWithFilters_conditions filters)) (test_results d)))"

definition findWithFilters :: "TestFilter \<Rightarrow> nat option \<Rightarrow> nat option \<Rightarrow> db \<Rightarrow> TestResult list" where
  "findWithFilters filters limit offset d =
     map mapRowToTestResult (findWithFilters_rows filters limit offset d)"

text \<open>
  \<^verbatim>\<open>findFlaky\<close>. \<^verbatim>\<open>DATE('now', '-30 days')\<close> is the text \<^verbatim>\<open>YYYY-MM-DD\<close> of the UTC date thirty days
  before today's, and a timestamp text \<^verbatim>\<open>YYYY-MM-DDThh:mm:ss.sssZ\<close> is at least that text exactly
  when its date is not before that date: the bound is that date's midnight. The rate is
  the exact fraction where the code divides IEEE doubles.
\<close>

definition msPerDay :: int where
  "msPerDay = 86400000"

definition sql_date_days_ago :: "int \<Rightarrow> int \<Rightarrow> int" where
  "sql_date_days_ago now n = (now div msPerDay - n) * msPerDay"

definition group_key :: "row \<Rightarrow> sql_value \<times> sql_value" where
  "group_key r = (r ''full_title'', r ''file'')"

definition count_failed :: "row list \<Rightarrow> nat" where
  "count_failed rows = length (filter (\<lambda>r. eval_cond r (Eq_text ''state'' ''failed'') = Some True) rows)"

definition max_time :: "row list \<Rightarrow> int" where
  "max_time rows =
     (case map (\<lambda>r. as_int (r ''start_time'')) rows of [] \<Rightarrow> 0 | t # ts \<Rightarrow> fold max ts t)"

text \<open>
  One row of the grouped query: \<^verbatim>\<open>test_title\<close>, \<^verbatim>\<open>spec_file\<close>, \<^verbatim>\<open>total_runs\<close>, \<^verbatim>\<open>failures\<close>,
  \<^verbatim>\<open>last_failure_time\<close> and \<^verbatim>\<open>flaky_rate\<close>.
\<close>

record flaky_row =
  test_title :: sql_value
  spec_file :: sql_value
  total_runs :: nat
  failures :: nat
  last_failure_time :: int
  flaky_rate :: rat

definition flaky_group :: "row list \<Rightarrow> sql_value \<times> sql_value \<Rightarrow> flaky_row" where
  "flaky_group rows key =
     (let members = filter (\<lambda>r. group_key r = key) rows
      in \<lparr>test_title = fst key, spec_file = snd key,
          total_runs = length members,
          failures = count_failed members,
          last_failure_time = max_time members,
          flaky_rate = of_nat (count_failed members) / of_nat (length members)\<rparr>)"

definition having :: "rat \<Rightarrow> flaky_row \<Rightarrow> bool" where
  "having threshold g = (total_runs g \<ge> 5 \<and> flaky_rate g \<ge> threshold \<and> flaky_rate g < 1)"

text \<open>\<^verbatim>\<open>ORDER BY flaky_rate DESC, total_runs DESC\<close>.\<close>

definition flaky_le :: "flaky_row \<Rightarrow> flaky_row \<Rightarrow> bool" where
  "flaky_le a b =
     (flaky_rate a > flaky_rate b \<or> (flaky_rate a = flaky_rate b \<and> total_runs a \<ge> total_runs b))"

definition findFlaky_rows :: "rat \<Rightarrow> int \<Rightarrow> db \<Rightarrow> flaky_row list" where
  "findFlaky_rows threshold now d =
     (let rows = filter (where_clause [Ge ''start_time'' (sql_date_days_ago now 30)]) (test_results d);
          groups = map (flaky_group rows) (remdups (map group_key rows))
      in sort_by flaky_le (filter (having threshold) groups))"

text \<open>\<^verbatim>\<open>Math.round(x * 100) / 100\<close>; \<^verbatim>\<open>Math.round\<close> takes a half upwards.\<close>

definition round2 :: "rat \<Rightarrow> rat" where
  "round2 x = of_int \<lfloor>x * 100 + 1 / 2\<rfloor> / 100"

definition findFlaky :: "rat option \<Rightarrow> int \<Rightarrow> db \<Rightarrow> FlakyTest list" where
  "findFlaky threshold now d =
     map (\<lambda>row. \<lparr>k_testTitle = test_title row, k_specFile = spec_file row,
                  k_flakyRate = round2 (flaky_rate row), k_totalRuns = total_runs row,
                  k_failures = failures row, k_lastFailure = last_failure_time row\<rparr>)
       (findFlaky_rows (case threshold of None \<Rightarrow> 1 / 10 | Some t \<Rightarrow> t) now d)"

text \<open>\<^verbatim>\<open>Partial<TestResult>\<close>.\<close>

record TestResult_patch =
  pt_id :: "string option"
  pt_runId :: "string option"
  pt_title :: "string option"
  pt_fullTitle :: "string option"
  pt_state :: "string option"
  pt_duration :: "int option"
  pt_error :: "TestError option"
  pt_screenshot :: "string option"
  pt_retries :: "int option"
  pt_currentRetry :: "int option"
  pt_pending :: "bool option"
  pt_file :: "string option"
  pt_parent :: "string option"
  pt_context :: "string option"
  pt_tags :: "string list option"
  pt_startTime :: "int option"
  pt_endTime :: "int option"
  pt_browser :: "BrowserInfo option"
  pt_viewport :: "ViewportInfo option"

definition text_or_null :: "string option \<Rightarrow> sql_value" where
  "text_or_null x = (case x of None \<Rightarrow> SNull | Some s \<Rightarrow> SText s)"

text \<open>
  The \<^verbatim>\<open>SET\<close> clause of \<^verbatim>\<open>update\<close>, the loop unrolled over the keys of \<^verbatim>\<open>Partial<TestResult>\<close>.
  The keys \<^verbatim>\<open>error\<close>, \<^verbatim>\<open>browser\<close> and \<^verbatim>\<open>viewport\<close> push the columns of their fields; \<^verbatim>\<open>tags\<close> is
  written with \<^verbatim>\<open>JSON.stringify\<close>; every other key pushes \<^verbatim>\<open>camelToSnakeCase(key)\<close>. The driver
  binds \<^verbatim>\<open>true\<close> as \<^verbatim>\<open>1\<close> and \<^verbatim>\<open>false\<close> as \<^verbatim>\<open>0\<close>.
\<close>

definition result_set_clause :: "TestResult_patch \<Rightarrow> (string \<times> sql_value) list" where
  "result_set_clause p =
     set_entry ''id'' (pt_id p) SText
     @ set_entry ''runId'' (pt_runId p) SText
     @ set_entry ''title'' (pt_title p) SText
     @ set_entry ''fullTitle'' (pt_fullTitle p) SText
     @ set_entry ''state'' (pt_state p) SText
     @ set_entry ''duration'' (pt_duration p) SInt
     @ (case pt_error p of
          None \<Rightarrow> []
        | Some errorObj \<Rightarrow>
            [(''error_name'', SText (e_name errorObj)),
             (''error_message'', SText (e_message errorObj)),
             (''error_stack'', text_or_null (e_stack errorObj)),
             (''error_diff'', text_or_null (e_diff errorObj))])
     @ set_entry ''screenshot'' (pt_screenshot p) SText
     @ set_entry ''retries'' (pt_retries p) SInt
     @ set_entry ''currentRetry'' (pt_currentRetry p) SInt
     @ set_entry ''pending'' (pt_pending p) (\<lambda>b. SInt (if b then 1 else 0))
     @ set_entry ''file'' (pt_file p) SText
     @ set_entry ''parent'' (pt_parent p) SText
     @ set_entry ''context'' (pt_context p) SText
     @ set_entry ''tags'' (pt_tags p) (\<lambda>xs. SJson (JArr (map JStr xs)))
     @ set_entry ''startTime'' (pt_startTime p) SInt
     @ set_entry ''endTime'' (pt_endTime p) SInt
     @ (case pt_browser p of
          None \<Rightarrow> []
        | Some browserObj \<Rightarrow>
            [(''browser_name'', SText (b_name browserObj)),
             (''browser_version'', SText (b_version browserObj))])
     @ (case pt_viewport p of
          None \<Rightarrow> []
        | Some viewportObj \<Rightarrow>
            [(''viewport_width'', SInt (v_width viewportObj)),
             (''viewport_height'', SInt (v_height viewportObj))])"

definition update_result :: "string \<Rightarrow> TestResult_patch \<Rightarrow> int \<Rightarrow> db \<Rightarrow> (db_error + unit) \<times> db" where
  "update_result ident updates now d =
     (let setClause = result_set_clause updates in
      if length setClause = 0 then (Inr (), d)
      else case sql_update_results setClause ident now d of
             (Inl e, d') \<Rightarrow> (Inl e, d')
           | (Inr changes, d') \<Rightarrow>
               if changes = 0 then (Inl (NotFound ident), d') else (Inr (), d'))"

section \<open>DatabaseManager\<close>

text \<open>
  \<^verbatim>\<open>cleanupOldData\<close>. \<^verbatim>\<open>cutoffDate.setDate(cutoffDate.getDate() - retentionDays)\<close> moves the
  clock back by that many days of the local calendar; here a day has 24 hours (a zone
  without daylight saving).
\<close>

record cleanup_result =
  deletedRuns :: nat
  deletedResults :: nat
  deletedScreenshots :: nat

definition cutoffDate :: "int \<Rightarrow> int \<Rightarrow> int" where
  "cutoffDate now retentionDays = now - retentionDays * msPerDay"

definition cleanupOldData :: "int \<Rightarrow> int \<Rightarrow> db \<Rightarrow> cleanup_result \<times> db" where
  "cleanupOldData retentionDays now d =
     (let cutoff = cutoffDate now retentionDays;
          oldResults = length (filter (where_clause [Lt ''start_time'' cutoff]) (test_results d));
          oldScreenshots = length (filter (where_clause [Lt ''taken_at'' cutoff]) (screenshots d))
      in case deleteOlderThan cutoff d of
           (deleted, d1) \<Rightarrow>
             (case sql_delete_screenshots [Lt ''taken_at'' cutoff] d1 of
                (n, d2) \<Rightarrow>
                  (\<lparr>deletedRuns = deleted, deletedResults = oldResults,
                    deletedScreenshots = oldScreenshots\<rparr>, d2)))"

section \<open>AuroraReporter\<close>

text \<open>
  What the handlers read of a Mocha test and of the error of a failed one, and of the process
  environment: \<^verbatim>\<open>CYPRESS_BROWSER_NAME\<close>, \<^verbatim>\<open>CYPRESS_BROWSER_VERSION\<close>, the Cypress version found in
  \<^verbatim>\<open>package.json\<close>, \<^verbatim>\<open>CYPRESS_SPEC_FILES\<close> and \<^verbatim>\<open>CYPRESS_CONFIG\<close>, whose text \<^verbatim>\<open>JSON.parse\<close> reads
  or rejects.
\<close>

record mocha_test =
  m_title :: string
  m_fullTitle :: string
  m_currentRetry :: int
  m_pending :: bool
  m_file :: "string option"
  m_parent :: "string option"
  m_duration :: "int option"

record mocha_error =
  x_name :: "string option"
  x_message :: "string option"
  x_stack :: "string option"
  x_diff :: "string option"

datatype config_text = Unset | Malformed | Parsed json

record environment =
  env_browser_name :: "string option"
  env_browser_version :: "string option"
  env_cypress_version :: "string option"
  env_spec_files :: "string option"
  env_config :: config_text

text \<open>\<^verbatim>\<open>x || d\<close> on an optional text: the default for an absent and for an empty one.\<close>

definition or_else :: "string option \<Rightarrow> string \<Rightarrow> string" where
  "or_else x d = (case x of None \<Rightarrow> d | Some s \<Rightarrow> if s = [] then d else s)"

fun split_on :: "char \<Rightarrow> string \<Rightarrow> string list" where
  "split_on c [] = [[]]"
| "split_on c (x # xs) =
     (if x = c then [] # split_on c xs
      else (case split_on c xs of [] \<Rightarrow> [[x]] | y # ys \<Rightarrow> (x # y) # ys))"

definition getBrowserName :: "environment \<Rightarrow> string" where
  "getBrowserName env = or_else (env_browser_name env) ''unknown''"

definition getBrowserVersion :: "environment \<Rightarrow> string" where
  "getBrowserVersion env = or_else (env_browser_version env) ''unknown''"

definition getCypressVersion :: "environment \<Rightarrow> string" where
  "getCypressVersion env = or_else (env_cypress_version env) ''unknown''"

definition getSpecFiles :: "environment \<Rightarrow> string list" where
  "getSpecFiles env =
     (case env_spec_files env of
        None \<Rightarrow> []
      | Some s \<Rightarrow> if s = [] then [] else split_on (CHR '','') s)"

text \<open>\<^verbatim>\<open>getRunConfig\<close> throws on a text that is not JSON; \<open>None\<close> is that exception.\<close>

definition getRunConfig :: "environment \<Rightarrow> json option" where
  "getRunConfig env =
     (case env_config env of Unset \<Rightarrow> Some (JObj []) | Malformed \<Rightarrow> None | Parsed j \<Rightarrow> Some j)"

definition getTestFile :: "mocha_test \<Rightarrow> string" where
  "getTestFile test = or_else (m_file test) ''unknown''"

text \<open>\<^verbatim>\<open>extractTags\<close>: the matches of \<^verbatim>\<open>/@(\w+)/g\<close> in the title.\<close>

definition is_word :: "char \<Rightarrow> bool" where
  "is_word c =
     (let n = (of_char c :: nat)
      in (48 \<le> n \<and> n \<le> 57) \<or> (65 \<le> n \<and> n \<le> 90) \<or> (97 \<le> n \<and> n \<le> 122) \<or> n = 95)"

function extractTags :: "string \<Rightarrow> string list" where
  "extractTags [] = []"
| "extractTags (c # cs) =
     (if c = CHR ''@'' \<and> takeWhile is_word cs \<noteq> []
      then takeWhile is_word cs # extractTags (dropWhile is_word cs)
      else extractTags cs)"
  by pat_completeness auto
termination
  by (relation "measure length") (auto simp: length_dropWhile_le le_imp_less_Suc)

text \<open>
  The state of the reporter: the run in progress, the \<^verbatim>\<open>Map\<close> from full title to result in
  insertion order, and the start time. The array \<open>r_results\<close> of the run is the one filled at
  the end of the run.
\<close>

record reporter =
  currentRun :: "TestRun option"
  testResults :: "(string \<times> TestResult) list"
  startTime :: int

text \<open>\<^verbatim>\<open>Map.prototype.set\<close>: a key already there keeps its place.\<close>

fun map_set :: "'k \<Rightarrow> 'v \<Rightarrow> ('k \<times> 'v) list \<Rightarrow> ('k \<times> 'v) list" where
  "map_set k v [] = [(k, v)]"
| "map_set k v ((k', v') # kvs) =
     (if k' = k then (k, v) # kvs else (k', v') # map_set k v kvs)"

text \<open>
  \<^verbatim>\<open>handleRunStart\<close>. The id is \<^verbatim>\<open>uuidv4()\<close> and the time \<^verbatim>\<open>new Date()\<close>. The start time is
  assigned first; when \<^verbatim>\<open>getRunConfig\<close> throws, the handler's \<^verbatim>\<open>catch\<close> leaves the run as it
  was. \<^verbatim>\<open>getCIInfo\<close> returns \<^verbatim>\<open>undefined\<close>. Saving to the store is not awaited and its failure
  is logged only, so the store is no part of this state.
\<close>

definition handleRunStart :: "environment \<Rightarrow> string \<Rightarrow> int \<Rightarrow> reporter \<Rightarrow> reporter" where
  "handleRunStart env runId now s =
     (let s1 = s\<lparr>startTime := now\<rparr> in
      case getRunConfig env of
        None \<Rightarrow> s1
      | Some config \<Rightarrow>
          s1\<lparr>currentRun := Some
              \<lparr>r_id = runId, r_startTime = now, r_endTime = None, r_duration = None,
               r_totalTests = 0, r_passed = 0, r_failed = 0, r_skipped = 0, r_pending = 0,
               r_retries = 0, r_browserName = getBrowserName env,
               r_browserVersion = getBrowserVersion env,
               r_cypressVersion = getCypressVersion env, r_specFiles = getSpecFiles env,
               r_config = config, r_ciInfo = None, r_status = ''running'',
               r_results = []\<rparr>\<rparr>)"

definition count_state :: "string \<Rightarrow> TestResult list \<Rightarrow> int" where
  "count_state st results = int (length (filter (\<lambda>t. t_state t = st) results))"

definition handleRunEnd :: "int \<Rightarrow> reporter \<Rightarrow> reporter" where
  "handleRunEnd now s =
     (case currentRun s of
        None \<Rightarrow> s
      | Some run \<Rightarrow>
          let results = map snd (testResults s);
              failed = count_state FAILED results
          in s\<lparr>currentRun := Some
                (run\<lparr>r_endTime := Some now,
                     r_duration := Some (now - startTime s),
                     r_totalTests := int (length (testResults s)),
                     r_results := results,
                     r_passed := count_state PASSED results,
                     r_failed := failed,
                     r_skipped := count_state SKIPPED results,
                     r_pending := count_state PENDING results,
                     r_status := (if failed > 0 then ''failed'' else ''completed'')\<rparr>)\<rparr>)"

definition handleTestStart :: "environment \<Rightarrow> mocha_test \<Rightarrow> string \<Rightarrow> int \<Rightarrow> reporter \<Rightarrow> reporter" where
  "handleTestStart env test newId now s =
     (let testResult =
            \<lparr>t_id = newId,
             t_runId = (case currentRun s of Some run \<Rightarrow> r_id run | None \<Rightarrow> []),
             t_title = m_title test, t_fullTitle = m_fullTitle test, t_state = PENDING,
             t_duration = 0, t_error = None, t_screenshot = None,
             t_retries = m_currentRetry test, t_currentRetry = m_currentRetry test,
             t_pending = m_pending test, t_file = getTestFile test,
             t_parent = or_else (m_parent test) [], t_context = None,
             t_tags = Some (extractTags (m_title test)), t_startTime = now, t_endTime = None,
             t_browser = Some \<lparr>b_name = getBrowserName env, b_version = getBrowserVersion env\<rparr>,
             t_viewport = None\<rparr>
      in s\<lparr>testResults := map_set (m_fullTitle test) testResult (testResults s)\<rparr>)"

definition handleTestPass :: "mocha_test \<Rightarrow> int \<Rightarrow> reporter \<Rightarrow> reporter" where
  "handleTestPass test now s =
     (case map_of (testResults s) (m_fullTitle test) of
        None \<Rightarrow> s
      | Some testResult \<Rightarrow>
          s\<lparr>testResults :=
              map_set (m_fullTitle test)
                (testResult\<lparr>t_state := PASSED,
                            t_duration := (case m_duration test of Some n \<Rightarrow> n | None \<Rightarrow> 0),
                            t_endTime := Some now\<rparr>)
                (testResults s)\<rparr>)"

definition handleTestFail :: "mocha_test \<Rightarrow> mocha_error \<Rightarrow> int \<Rightarrow> reporter \<Rightarrow> reporter" where
  "handleTestFail test err now s =
     (case map_of (testResults s) (m_fullTitle test) of
        None \<Rightarrow> s
      | Some testResult \<Rightarrow>
          s\<lparr>testResults :=
              map_set (m_fullTitle test)
                (testResult\<lparr>t_state := FAILED,
                            t_duration := (case m_duration test of Some n \<Rightarrow> n | None \<Rightarrow> 0),
                            t_endTime := Some now,
                            t_error := Some \<lparr>e_name = or_else (x_name err) ''Error'',
                                             e_message = or_else (x_message err) ''Unknown error'',
                                             e_stack = x_stack err, e_diff = x_diff err\<rparr>\<rparr>)
                (testResults s)\<rparr>)"

definition handleTestPending :: "environment \<Rightarrow> mocha_test \<Rightarrow> string \<Rightarrow> int \<Rightarrow> reporter \<Rightarrow> reporter" where
  "handleTestPending env test newId now s =
     (let testResult =
            \<lparr>t_id = newId,
             t_runId = (case currentRun s of Some run \<Rightarrow> r_id run | None \<Rightarrow> []),
             t_title = m_title test, t_fullTitle = m_fullTitle test, t_state = PENDING,
             t_duration = 0, t_error = None, t_screenshot = None,
             t_retries = 0, t_currentRetry = 0, t_pending = True, t_file = getTestFile test,
             t_parent = or_else (m_parent test) [], t_context = None,
             t_tags = Some (extractTags (m_title test)), t_startTime = now, t_endTime = Some now,
             t_browser = Some \<lparr>b_name = getBrowserName env, b_version = getBrowserVersion env\<rparr>,
             t_viewport = None\<rparr>
      in s\<lparr>testResults := map_set (m_fullTitle test) testResult (testResults s)\<rparr>)"

definition handleTestRetry :: "mocha_test \<Rightarrow> reporter \<Rightarrow> reporter" where
  "handleTestRetry test s =
     (let s1 = (case map_of (testResults s) (m_fullTitle test) of
                  None \<Rightarrow> s
                | Some testResult \<Rightarrow>
                    s\<lparr>testResults :=
                        map_set (m_fullTitle test)
                          (testResult\<lparr>t_retries := t_retries testResult + 1,
                                      t_currentRetry := m_currentRetry test\<rparr>)
                          (testResults s)\<rparr>)
      in case currentRun s1 of
           None \<Rightarrow> s1
         | Some run \<Rightarrow> s1\<lparr>currentRun := Some (run\<lparr>r_retries := r_retries run + 1\<rparr>)\<rparr>)"

text \<open>
  The events of the Mocha runner that \<^verbatim>\<open>setupEventListeners\<close> listens to, each with what its
  handler takes from the clock and from \<^verbatim>\<open>uuidv4\<close>. The handlers of suites and hooks only log.
\<close>

datatype runner_event =
    Start string int
  | End int
  | Test mocha_test string int
  | Pass mocha_test int
  | Fail mocha_test mocha_error int
  | Pending_test mocha_test string int
  | Retry mocha_test
  | Suite_or_hook

fun on_event :: "environment \<Rightarrow> reporter \<Rightarrow> runner_event \<Rightarrow> reporter" where
  "on_event env s (Start runId now) = handleRunStart env runId now s"
| "on_event env s (End now) = handleRunEnd now s"
| "on_event env s (Test test newId now) = handleTestStart env test newId now s"
| "on_event env s (Pass test now) = handleTestPass test now s"
| "on_event env s (Fail test err now) = handleTestFail test err now s"
| "on_event env s (Pending_test test newId now) = handleTestPending env test newId now s"
| "on_event env s (Retry test) = handleTestRetry test s"
| "on_event env s Suite_or_hook = s"

definition new_reporter :: "int \<Rightarrow> reporter" where
  "new_reporter now = \<lparr>currentRun = None, testResults = [], startTime = now\<rparr>"

definition after_events :: "environment \<Rightarrow> int \<Rightarrow> runner_event list \<Rightarrow> reporter" where
  "after_events env t0 evs = foldl (on_event env) (new_reporter t0) evs"

text \<open>
  What the events heard so far say of the run: no run began, a run began and no end event
  came since, or an end event came since the last run began. A start event begins a run
  unless \<^verbatim>\<open>getRunConfig\<close> throws.
\<close>

datatype phase = No_run | Running | Ended

fun phase_step :: "environment \<Rightarrow> phase \<Rightarrow> runner_event \<Rightarrow> phase" where
  "phase_step env ph (Start runId now) = (if getRunConfig env = None then ph else Running)"
| "phase_step env ph (End now) = (if ph = No_run then No_run else Ended)"
| "phase_step env ph ev = ph"

definition phase_of :: "environment \<Rightarrow> runner_event list \<Rightarrow> phase" where
  "phase_of env evs = foldl (phase_step env) No_run evs"

section \<open>WebSocketManager\<close>

text \<open>
  The hub rests on socket.io, whose rooms behave as its documentation says: \<^verbatim>\<open>socket.join\<close>
  puts the socket into a room, \<^verbatim>\<open>socket.leave\<close> takes it out, a socket that disconnects leaves
  all its rooms, \<^verbatim>\<open>io.to(room).emit\<close> sends to the sockets that are in the room at that
  moment, \<^verbatim>\<open>io.emit\<close> to all connected sockets and \<^verbatim>\<open>socket.emit\<close> to the one socket. The
  state is the set \<^verbatim>\<open>connectedClients\<close>, the memberships (room, socket id) and, in order, every
  message delivered. A message is the event name with its payload; the time stamp that
  \<^verbatim>\<open>emit\<close> and \<^verbatim>\<open>emitToRoom\<close> add is left out.
\<close>

datatype channel = Room string | Broadcast | Direct

record 'p delivery =
  dl_to :: string
  dl_via :: channel
  dl_event :: string
  dl_payload :: 'p

record 'p hub =
  connectedClients :: "string list"
  rooms :: "(string \<times> string) list"
  delivered :: "'p delivery list"

definition new_hub :: "'p hub" where
  "new_hub = \<lparr>connectedClients = [], rooms = [], delivered = []\<rparr>"

definition set_add :: "'a \<Rightarrow> 'a list \<Rightarrow> 'a list" where
  "set_add x xs = (if x \<in> set xs then xs else xs @ [x])"

definition run_room :: "string \<Rightarrow> string" where
  "run_room runId = ''test-run:'' @ runId"

definition handleClientConnection :: "string \<Rightarrow> 'p hub \<Rightarrow> 'p hub" where
  "handleClientConnection clientId h = h\<lparr>connectedClients := set_add clientId (connectedClients h)\<rparr>"

definition handleClientDisconnection :: "string \<Rightarrow> 'p hub \<Rightarrow> 'p hub" where
  "handleClientDisconnection clientId h =
     h\<lparr>connectedClients := removeAll clientId (connectedClients h),
       rooms := filter (\<lambda>(room, c). c \<noteq> clientId) (rooms h)\<rparr>"

definition socket_join :: "string \<Rightarrow> string \<Rightarrow> 'p hub \<Rightarrow> 'p hub" where
  "socket_join clientId room h = h\<lparr>rooms := set_add (room, clientId) (rooms h)\<rparr>"

definition socket_leave :: "string \<Rightarrow> string \<Rightarrow> 'p hub \<Rightarrow> 'p hub" where
  "socket_leave clientId room h = h\<lparr>rooms := removeAll (room, clientId) (rooms h)\<rparr>"

definition socket_emit :: "string \<Rightarrow> string \<Rightarrow> 'p \<Rightarrow> 'p hub \<Rightarrow> 'p hub" where
  "socket_emit clientId event data h =
     (if clientId \<in> set (connectedClients h)
      then h\<lparr>delivered := delivered h
                @ [\<lparr>dl_to = clientId, dl_via = Direct, dl_event = event, dl_payload = data\<rparr>]\<rparr>
      else h)"

definition emit :: "string \<Rightarrow> 'p \<Rightarrow> 'p hub \<Rightarrow> 'p hub" where
  "emit event data h =
     h\<lparr>delivered := delivered h
        @ map (\<lambda>c. \<lparr>dl_to = c, dl_via = Broadcast, dl_event = event, dl_payload = data\<rparr>)
            (connectedClients h)\<rparr>"

definition emitToRoom :: "string \<Rightarrow> string \<Rightarrow> 'p \<Rightarrow> 'p hub \<Rightarrow> 'p hub" where
  "emitToRoom room event data h =
     h\<lparr>delivered := delivered h
        @ map (\<lambda>c. \<lparr>dl_to = c, dl_via = Room room, dl_event = event, dl_payload = data\<rparr>)
            (map snd (filter (\<lambda>(r, c). r = room) (rooms h)))\<rparr>"

definition emitTestRunStarted :: "'p \<Rightarrow> 'p hub \<Rightarrow> 'p hub" where
  "emitTestRunStarted testRun h =
     emitToRoom ''test-runs'' ''test-runs:update'' testRun (emit ''test-run:started'' testRun h)"

definition emitTestRunCompleted :: "string \<Rightarrow> 'p \<Rightarrow> 'p hub \<Rightarrow> 'p hub" where
  "emitTestRunCompleted runId testRun h =
     emitToRoom (run_room runId) ''test-run:completed'' testRun
       (emitToRoom ''test-runs'' ''test-runs:update'' testRun
          (emit ''test-run:completed'' testRun h))"

definition emitTestStarted :: "string \<Rightarrow> 'p \<Rightarrow> 'p hub \<Rightarrow> 'p hub" where
  "emitTestStarted runId testResult h = emitToRoom (run_room runId) ''test:started'' testResult h"

definition emitTestCompleted :: "string \<Rightarrow> 'p \<Rightarrow> 'p hub \<Rightarrow> 'p hub" where
  "emitTestCompleted runId testResult h =
     emitToRoom ''test-updates'' ''test:update'' testResult
       (emitToRoom (run_room runId) ''test:completed'' testResult h)"

definition emitScreenshotTaken :: "string \<Rightarrow> 'p \<Rightarrow> 'p hub \<Rightarrow> 'p hub" where
  "emitScreenshotTaken runId shot h = emitToRoom (run_room runId) ''screenshot:taken'' shot h"

text \<open>
  What happens at the hub, one step at a time: a socket connects or disconnects, the message
  of a connected socket reaches its handler (the handlers join and leave at once, before
  they wait for the store), an answer that a handler sends to its socket after waiting
  (\<^verbatim>\<open>welcome\<close>, \<^verbatim>\<open>test-runs:initial\<close>, \<^verbatim>\<open>test-run:details\<close> and the like), and the calls of the
  publishing methods. The run id of a published test or screenshot is the \<^verbatim>\<open>runId\<close> of its
  payload.
\<close>

datatype 'p hub_step =
    Connects string
  | Disconnects string
  | Subscribe_test_runs string
  | Subscribe_test_run string string
  | Unsubscribe_test_run string string
  | Answer string string 'p
  | Emit string 'p
  | Emit_to_room string string 'p
  | Test_run_started 'p
  | Test_run_completed string 'p
  | Test_started string 'p
  | Test_completed string 'p
  | Screenshot_taken string 'p

definition when_connected :: "string \<Rightarrow> ('p hub \<Rightarrow> 'p hub) \<Rightarrow> 'p hub \<Rightarrow> 'p hub" where
  "when_connected clientId f h = (if clientId \<in> set (connectedClients h) then f h else h)"

fun hub_do :: "'p hub \<Rightarrow> 'p hub_step \<Rightarrow> 'p hub" where
  "hub_do h (Connects c) = handleClientConnection c h"
| "hub_do h (Disconnects c) = handleClientDisconnection c h"
| "hub_do h (Subscribe_test_runs c) = when_connected c (socket_join c ''test-runs'') h"
| "hub_do h (Subscribe_test_run c runId) = when_connected c (socket_join c (run_room runId)) h"
| "hub_do h (Unsubscribe_test_run c runId) = when_connected c (socket_leave c (run_room runId)) h"
| "hub_do h (Answer c event data) = socket_emit c event data h"
| "hub_do h (Emit event data) = emit event data h"
| "hub_do h (Emit_to_room room event data) = emitToRoom room event data h"
| "hub_do h (Test_run_started testRun) = emitTestRunStarted testRun h"
| "hub_do h (Test_run_completed runId testRun) = emitTestRunCompleted runId testRun h"
| "hub_do h (Test_started runId testResult) = emitTestStarted runId testResult h"
| "hub_do h (Test_completed runId testResult) = emitTestCompleted runId testResult h"
| "hub_do h (Screenshot_taken runId shot) = emitScreenshotTaken runId shot h"

definition hub_after :: "'p hub_step list \<Rightarrow> 'p hub" where
  "hub_after steps = foldl hub_do new_hub steps"

text \<open>What one session got through one room: the event names and payloads, in order.\<close>

definition received :: "string \<Rightarrow> string \<Rightarrow> 'p hub \<Rightarrow> (string \<times> 'p) list" where
  "received clientId room h =
     map (\<lambda>m. (dl_event m, dl_payload m))
       (filter (\<lambda>m. dl_to m = clientId \<and> dl_via m = Room room) (delivered h))"

text \<open>
  The same from the history alone, for one session and the room of one run. The session is
  offline, or online and subscribed to the room or not; what is published to the room while
  it is subscribed is what it should get.
\<close>

datatype membership = Offline | Online bool

fun member_step :: "string \<Rightarrow> string \<Rightarrow> membership \<Rightarrow> 'p hub_step \<Rightarrow> membership" where
  "member_step s runId m (Connects c) = (if c = s \<and> m = Offline then Online False else m)"
| "member_step s runId m (Disconnects c) = (if c = s then Offline else m)"
| "member_step s runId m (Subscribe_test_run c rid) =
     (if c = s \<and> rid = runId \<and> m \<noteq> Offline then Online True else m)"
| "member_step s runId m (Unsubscribe_test_run c rid) =
     (if c = s \<and> rid = runId \<and> m \<noteq> Offline then Online False else m)"
| "member_step s runId m step = m"

definition membership_after :: "string \<Rightarrow> string \<Rightarrow> 'p hub_step list \<Rightarrow> membership" where
  "membership_after s runId steps = foldl (member_step s runId) Offline steps"

text \<open>The messages one step publishes to the room of a run.\<close>

fun published :: "string \<Rightarrow> 'p hub_step \<Rightarrow> (string \<times> 'p) list" where
  "published runId (Emit_to_room room event data) =
     (if room = run_room runId then [(event, data)] else [])"
| "published runId (Test_run_completed rid testRun) =
     (if rid = runId then [(''test-run:completed'', testRun)] else [])"
| "published runId (Test_started rid testResult) =
     (if rid = runId then [(''test:started'', testResult)] else [])"
| "published runId (Test_completed rid testResult) =
     (if rid = runId then [(''test:completed'', testResult)] else [])"
| "published runId (Screenshot_taken rid shot) =
     (if rid = runId then [(''screenshot:taken'', shot)] else [])"
| "published runId step = []"

fun expected :: "string \<Rightarrow> string \<Rightarrow> membership \<Rightarrow> 'p hub_step list \<Rightarrow> (string \<times> 'p) list" where
  "expected s runId m [] = []"
| "expected s runId m (step # steps) =
     (if m = Online True then published runId step else [])
     @ expected s runId (member_step s runId m step) steps"

section \<open>Notions used in the properties\<close>

text \<open>
  A row has the id, by the comparison \<^verbatim>\<open>id = ?\<close> of the statements; a row is owned by one
  of the given parent rows when its foreign key column holds the id cell of one of them.
\<close>

definition has_id :: "string \<Rightarrow> row \<Rightarrow> bool" where
  "has_id ident r = (cell_text (r ''id'') = Some ident)"

definition owned_by :: "string \<Rightarrow> row list \<Rightarrow> row \<Rightarrow> bool" where
  "owned_by c parents x = refers c (map (\<lambda>p. p ''id'') parents) x"

text \<open>
  Referential integrity: every result refers to a run of the store and every screenshot to a
  result of the store.
\<close>

definition fk_ok :: "db \<Rightarrow> bool" where
  "fk_ok d =
     ((\<forall>t \<in> set (test_results d). owned_by ''run_id'' (test_runs d) t) \<and>
      (\<forall>s \<in> set (screenshots d). owned_by ''test_result_id'' (test_results d) s))"

text \<open>The patches with no key defined.\<close>

definition no_run_patch :: TestRun_patch where
  "no_run_patch =
     \<lparr>pr_id = None, pr_startTime = None, pr_endTime = None, pr_duration = None,
      pr_totalTests = None, pr_passed = None, pr_failed = None, pr_skipped = None,
      pr_pending = None, pr_retries = None, pr_browserName = None, pr_browserVersion = None,
      pr_cypressVersion = None, pr_specFiles = None, pr_config = None, pr_ciInfo = None,
      pr_status = None, pr_results = None\<rparr>"

definition no_result_patch :: TestResult_patch where
  "no_result_patch =
     \<lparr>pt_id = None, pt_runId = None, pt_title = None, pt_fullTitle = None, pt_state = None,
      pt_duration = None, pt_error = None, pt_screenshot = None, pt_retries = None,
      pt_currentRetry = None, pt_pending = None, pt_file = None, pt_parent = None,
      pt_context = None, pt_tags = None, pt_startTime = None, pt_endTime = None,
      pt_browser = None, pt_viewport = None\<rparr>"

text \<open>
  The cell a patch field gives a column, if the field is defined; and what keeps a patch
  and a store within the schema: the keys of the patch that push a column which the table
  does not have (\<^verbatim>\<open>results\<close> of a run, \<^verbatim>\<open>screenshot\<close> of a result) are absent, a new status or state
  is one the \<^verbatim>\<open>CHECK\<close> admits, a new run id is the id of a run, and the rows of the store pass
  their column constraints.
\<close>

definition cell_opt :: "string \<Rightarrow> sql_value option \<Rightarrow> (string \<times> sql_value) list" where
  "cell_opt c v = (case v of None \<Rightarrow> [] | Some x \<Rightarrow> [(c, x)])"

definition run_patch_ok :: "TestRun_patch \<Rightarrow> bool" where
  "run_patch_ok p =
     (pr_results p = None \<and>
      (case pr_status p of None \<Rightarrow> True | Some s \<Rightarrow> s \<in> set run_statuses))"

definition result_patch_ok :: "db \<Rightarrow> TestResult_patch \<Rightarrow> bool" where
  "result_patch_ok d p =
     (pt_screenshot p = None \<and>
      (case pt_state p of None \<Rightarrow> True | Some s \<Rightarrow> s \<in> set result_states) \<and>
      (case pt_runId p of
         None \<Rightarrow> True
       | Some rid \<Rightarrow> SText rid \<in> set (map (\<lambda>r. r ''id'') (test_runs d))))"

definition rows_ok :: "db \<Rightarrow> bool" where
  "rows_ok d =
     ((\<forall>r \<in> set (test_runs d). run_row_ok r) \<and>
      (\<forall>t \<in> set (test_results d). result_row_ok (map (\<lambda>r. r ''id'') (test_runs d)) t))"

text \<open>
  A row after a patch, in the words of the property: \<^verbatim>\<open>updated_at\<close> holds the time of the
  update, a column that the patch gives a cell holds that cell, every other column holds
  what it held.
\<close>

definition patched_row :: "(string \<times> sql_value) list \<Rightarrow> int \<Rightarrow> row \<Rightarrow> row" where
  "patched_row cells now r =
     (\<lambda>c. if c = ''updated_at'' then SInt now
          else case map_of cells c of Some v \<Rightarrow> v | None \<Rightarrow> r c)"

text \<open>
  A row whose time in the given column is before the given instant, as \<^verbatim>\<open>c < ?\<close> selects it.
\<close>

definition before :: "string \<Rightarrow> int \<Rightarrow> row \<Rightarrow> bool" where
  "before c k r = (case r c of SInt n \<Rightarrow> n < k | _ \<Rightarrow> False)"

text \<open>
  The status of the run in progress, and what the status is in each phase: no run, the
  status \<^verbatim>\<open>running\<close>, or one of the terminal statuses that the reporter sets.
\<close>

definition run_status :: "reporter \<Rightarrow> string option" where
  "run_status s = map_option r_status (currentRun s)"

definition in_phase :: "phase \<Rightarrow> reporter \<Rightarrow> bool" where
  "in_phase ph s =
     (case ph of
        No_run \<Rightarrow> currentRun s = None
      | Running \<Rightarrow> run_status s = Some ''running''
      | Ended \<Rightarrow> run_status s = Some ''failed'' \<or> run_status s = Some ''completed'')"

text \<open>
  The hub and the history agree on a session and a run: the session is offline exactly when it
  is not among the connected clients, subscribed exactly when it is in the room of the run;
  no membership is listed twice, and only connected clients are in rooms.
\<close>

definition agrees :: "string \<Rightarrow> string \<Rightarrow> membership \<Rightarrow> 'p hub \<Rightarrow> bool" where
  "agrees s runId m h =
     ((m = Offline \<longleftrightarrow> s \<notin> set (connectedClients h)) \<and>
      (m = Online True \<longleftrightarrow> (run_room runId, s) \<in> set (rooms h)) \<and>
      distinct (rooms h) \<and>
      (\<forall>rc \<in> set (rooms h). snd rc \<in> set (connectedClients h)))"

text \<open>
  The notions of the flaky-test property. Every result carries a start time. A result is in
  the window of the query when it started at or after the beginning (00:00 UTC) of the day
  thirty days before the current day; the results of one test are the results in the window
  with its full title and file; a group of results is flaky at a threshold when it has five
  results or more and the share of the failed ones is at least the threshold and below one.
\<close>

definition timed :: "db \<Rightarrow> bool" where
  "timed d = (\<forall>r \<in> set (test_results d). as_int_opt (r ''start_time'') \<noteq> None)"

definition in_window :: "int \<Rightarrow> row \<Rightarrow> bool" where
  "in_window now r = (sql_date_days_ago now 30 \<le> as_int (r ''start_time''))"

definition results_of :: "int \<Rightarrow> db \<Rightarrow> sql_value \<times> sql_value \<Rightarrow> row list" where
  "results_of now d k = filter (\<lambda>r. in_window now r \<and> group_key r = k) (test_results d)"

definition failed_of :: "row list \<Rightarrow> row list" where
  "failed_of rows = filter (\<lambda>r. cell_text (r ''state'') = Some ''failed'') rows"

definition ratio :: "row list \<Rightarrow> rat" where
  "ratio rows = of_nat (length (failed_of rows)) / of_nat (length rows)"

definition flaky :: "rat \<Rightarrow> row list \<Rightarrow> bool" where
  "flaky t rows = (5 \<le> length rows \<and> t \<le> ratio rows \<and> ratio rows < 1)"

definition row_key :: "flaky_row \<Rightarrow> sql_value \<times> sql_value" where
  "row_key g = (test_title g, spec_file g)"

text \<open>
  The window in the words of the specification: the thirty days that end now.
\<close>

definition in_trailing_window :: "int \<Rightarrow> row \<Rightarrow> bool" where
  "in_trailing_window now r =
     (now - 30 * msPerDay \<le> as_int (r ''start_time'') \<and> as_int (r ''start_time'') \<le> now)"

definition trailing_results_of :: "int \<Rightarrow> db \<Rightarrow> sql_value \<times> sql_value \<Rightarrow> row list" where
  "trailing_results_of now d k =
     filter (\<lambda>r. in_trailing_window now r \<and> group_key r = k) (test_results d)"

text \<open>
  The predicates of a result filter, in the words of the property. A text column is among the
  given texts; a numeric column holds a number with the given property; a text is found in a
  cell when the cell has a text that contains it as a contiguous part, ASCII letters compared
  without regard to case. A list that is absent or empty, a search text that is absent or
  empty, and \<^verbatim>\<open>retries\<close> absent or false ask for nothing; of several tags one has to be found, in
  double quotes, in the serialized tags.
\<close>

definition text_in :: "string \<Rightarrow> string list option \<Rightarrow> row \<Rightarrow> bool" where
  "text_in c xs r =
     (case xs of
        None \<Rightarrow> True
      | Some ys \<Rightarrow> ys = [] \<or> (case cell_text (r c) of None \<Rightarrow> False | Some s \<Rightarrow> s \<in> set ys))"

definition num_cell :: "string \<Rightarrow> (int \<Rightarrow> bool) \<Rightarrow> row \<Rightarrow> bool" where
  "num_cell c P r = (case as_int_opt (r c) of Some n \<Rightarrow> P n | None \<Rightarrow> False)"

definition found :: "string \<Rightarrow> sql_value \<Rightarrow> bool" where
  "found s v =
     (case cell_text v of
        None \<Rightarrow> False
      | Some t \<Rightarrow> sublist (map ascii_lower s) (map ascii_lower t))"

definition quoted :: "string \<Rightarrow> string" where
  "quoted tag = [CHR 0x22] @ tag @ [CHR 0x22]"

definition matches :: "TestFilter \<Rightarrow> row \<Rightarrow> bool" where
  "matches f r =
     (text_in ''state'' (f_status f) r
      \<and> text_in ''file'' (f_specFiles f) r
      \<and> (case f_duration f of
            None \<Rightarrow> True
          | Some (mn, mx) \<Rightarrow>
              (case mn of None \<Rightarrow> True | Some k \<Rightarrow> num_cell ''duration'' (\<lambda>n. k \<le> n) r)
              \<and> (case mx of None \<Rightarrow> True | Some k \<Rightarrow> num_cell ''duration'' (\<lambda>n. n \<le> k) r))
      \<and> (case f_search f of
            None \<Rightarrow> True
          | Some s \<Rightarrow>
              s = [] \<or> found s (r ''title'') \<or> found s (r ''full_title'')
              \<or> found s (r ''error_message''))
      \<and> (case f_tags f of
            None \<Rightarrow> True
          | Some ts \<Rightarrow> ts = [] \<or> (\<exists>tag \<in> set ts. found (quoted tag) (r ''tags'')))
      \<and> text_in ''browser_name'' (f_browser f) r
      \<and> (case f_retries f of
            None \<Rightarrow> True
          | Some b \<Rightarrow> if b then num_cell ''retries'' (\<lambda>n. 0 < n) r else True)
      \<and> (case f_hasScreenshots f of
            None \<Rightarrow> True
          | Some b \<Rightarrow> (r ''screenshot_path'' \<noteq> SNull) = b)
      \<and> (case f_dateRange f of
            None \<Rightarrow> True
          | Some (s, e) \<Rightarrow> num_cell ''start_time'' (\<lambda>n. s \<le> n \<and> n \<le> e) r))"

text \<open>
  What the property asks of the store and of the filter: the duration, the number of retries
  and the start time of a result are numbers or \<^verbatim>\<open>NULL\<close>, and neither the search text nor a
  tag has one of the characters \<^verbatim>\<open>%\<close> and \<^verbatim>\<open>_\<close>, which the statement passes on to \<^verbatim>\<open>LIKE\<close> as
  they are.
\<close>

definition numbers_ok :: "db \<Rightarrow> bool" where
  "numbers_ok d =
     (\<forall>r \<in> set (test_results d). \<forall>c \<in> set [''duration'', ''retries'', ''start_time''].
        r c = SNull \<or> as_int_opt (r c) \<noteq> None)"

definition no_wildcards :: "string \<Rightarrow> bool" where
  "no_wildcards s = (CHR ''%'' \<notin> set s \<and> CHR ''_'' \<notin> set s)"

definition plain :: "TestFilter \<Rightarrow> bool" where
  "plain f =
     ((case f_search f of None \<Rightarrow> True | Some s \<Rightarrow> no_wildcards s) \<and>
      (case f_tags f of None \<Rightarrow> True | Some ts \<Rightarrow> \<forall>tag \<in> set ts. no_wildcards tag))"

text \<open>
  The search and the retries flag in the words of the specification: a text is contained in a
  cell as it is written, and the flag selects the results that have retries, or those that
  have none.
\<close>

definition contains :: "string \<Rightarrow> sql_value \<Rightarrow> bool" where
  "contains s v = (case cell_text v of None \<Rightarrow> False | Some t \<Rightarrow> sublist s t)"

definition substring_search :: "string \<Rightarrow> row \<Rightarrow> bool" where
  "substring_search s r =
     (contains s (r ''title'') \<or> contains s (r ''full_title'') \<or> contains s (r ''error_message''))"

definition has_retries :: "row \<Rightarrow> bool" where
  "has_retries r = num_cell ''retries'' (\<lambda>n. 0 < n) r"

section \<open>Concrete stores and inputs\<close>

definition empty_db :: db where
  "empty_db = \<lparr>test_runs = [], test_results = [], screenshots = []\<rparr>"

definition run_a :: row where
  "run_a = mk_row [(''id'', SText ''a''), (''start_time'', SInt 100), (''status'', SText ''running''),
                   (''created_at'', SInt 100), (''updated_at'', SInt 100)]"

definition run_b :: row where
  "run_b = mk_row [(''id'', SText ''b''), (''start_time'', SInt 300), (''status'', SText ''failed''),
                   (''created_at'', SInt 300), (''updated_at'', SInt 300)]"

definition run_c :: row where
  "run_c = mk_row [(''id'', SText ''c''), (''start_time'', SInt 200), (''status'', SText ''completed''),
                   (''created_at'', SInt 200), (''updated_at'', SInt 200)]"

definition three_runs :: db where
  "three_runs = \<lparr>test_runs = [run_a, run_b, run_c], test_results = [], screenshots = []\<rparr>"

definition no_filter :: TestFilter where
  "no_filter =
     \<lparr>f_status = None, f_specFiles = None, f_dateRange = None, f_duration = None,
      f_search = None, f_tags = None, f_browser = None, f_retries = None,
      f_hasScreenshots = None\<rparr>"

definition res_a :: row where
  "res_a = mk_row [(''id'', SText ''ta''), (''run_id'', SText ''a''), (''title'', SText ''adds''),
                   (''full_title'', SText ''math adds''), (''state'', SText ''passed''),
                   (''start_time'', SInt 110)]"

definition res_b :: row where
  "res_b = mk_row [(''id'', SText ''tb''), (''run_id'', SText ''b''), (''title'', SText ''subtracts''),
                   (''full_title'', SText ''math subtracts''), (''state'', SText ''failed''),
                   (''start_time'', SInt 310)]"

definition shot_a :: row where
  "shot_a = mk_row [(''id'', SText ''sa''), (''test_result_id'', SText ''ta''),
                    (''name'', SText ''adds''), (''path'', SText ''/shots/adds.png''),
                    (''taken_at'', SInt 120)]"

definition shot_b :: row where
  "shot_b = mk_row [(''id'', SText ''sb''), (''test_result_id'', SText ''tb''),
                    (''name'', SText ''subtracts''), (''path'', SText ''/shots/subtracts.png''),
                    (''taken_at'', SInt 320)]"

definition two_runs :: db where
  "two_runs = \<lparr>test_runs = [run_a, run_b], test_results = [res_a, res_b],
               screenshots = [shot_a, shot_b]\<rparr>"

definition a_result :: TestResult where
  "a_result =
     \<lparr>t_id = ''t1'', t_runId = ''n1'', t_title = ''adds'', t_fullTitle = ''math adds'',
      t_state = ''passed'', t_duration = 12, t_error = None, t_screenshot = None, t_retries = 0,
      t_currentRetry = 0, t_pending = False, t_file = ''math.cy.ts'', t_parent = ''math'',
      t_context = None, t_tags = None, t_startTime = 1010, t_endTime = Some 1022,
      t_browser = None, t_viewport = None\<rparr>"

definition finished_run :: TestRun where
  "finished_run =
     \<lparr>r_id = [], r_startTime = 1000, r_endTime = Some 2500, r_duration = Some 1500,
      r_totalTests = 3, r_passed = 2, r_failed = 1, r_skipped = 0, r_pending = 0, r_retries = 1,
      r_browserName = ''chrome'', r_browserVersion = ''100.0.0'', r_cypressVersion = ''12.0.0'',
      r_specFiles = [''math.cy.ts''], r_config = JObj [(''retries'', JNum 2)],
      r_ciInfo = Some (JObj [(''branch'', JStr ''main'')]), r_status = ''failed'',
      r_results = []\<rparr>"

definition instant_run :: TestRun where
  "instant_run = finished_run\<lparr>r_endTime := Some 1000, r_duration := Some 0, r_results := [a_result]\<rparr>"

definition day :: "int \<Rightarrow> int" where
  "day n = n * 86400000"

definition old_run :: row where
  "old_run = mk_row [(''id'', SText ''old''), (''start_time'', SInt (day 10)),
                     (''status'', SText ''completed'')]"

definition new_run :: row where
  "new_run = mk_row [(''id'', SText ''new''), (''start_time'', SInt (day 99)),
                     (''status'', SText ''completed'')]"

definition old_res :: row where
  "old_res = mk_row [(''id'', SText ''t-old''), (''run_id'', SText ''old''),
                     (''start_time'', SInt (day 10))]"

definition new_res :: row where
  "new_res = mk_row [(''id'', SText ''t-new''), (''run_id'', SText ''new''),
                     (''start_time'', SInt (day 99))]"

definition old_shot :: row where
  "old_shot = mk_row [(''id'', SText ''s-old''), (''test_result_id'', SText ''t-old''),
                      (''taken_at'', SInt (day 10))]"

definition new_shot :: row where
  "new_shot = mk_row [(''id'', SText ''s-new''), (''test_result_id'', SText ''t-new''),
                      (''taken_at'', SInt (day 99))]"

definition early_shot :: row where
  "early_shot = mk_row [(''id'', SText ''s-early''), (''test_result_id'', SText ''t-new''),
                        (''taken_at'', SInt (day 60))]"

definition aged_db :: db where
  "aged_db = \<lparr>test_runs = [old_run, new_run], test_results = [old_res, new_res],
              screenshots = [old_shot, new_shot]\<rparr>"

definition early_shot_db :: db where
  "early_shot_db = \<lparr>test_runs = [new_run], test_results = [new_res], screenshots = [early_shot]\<rparr>"

definition plain_env :: environment where
  "plain_env =
     \<lparr>env_browser_name = Some ''chrome'', env_browser_version = None,
      env_cypress_version = None, env_spec_files = Some ''a.cy.ts,b.cy.ts'',
      env_config = Unset\<rparr>"

definition test_adds :: mocha_test where
  "test_adds =
     \<lparr>m_title = ''adds @smoke'', m_fullTitle = ''math adds @smoke'', m_currentRetry = 0,
      m_pending = False, m_file = Some ''a.cy.ts'', m_parent = Some ''math'',
      m_duration = Some 12\<rparr>"

definition test_divides :: mocha_test where
  "test_divides =
     \<lparr>m_title = ''divides'', m_fullTitle = ''math divides'', m_currentRetry = 0,
      m_pending = False, m_file = Some ''a.cy.ts'', m_parent = Some ''math'',
      m_duration = Some 7\<rparr>"

definition division_error :: mocha_error where
  "division_error =
     \<lparr>x_name = Some ''AssertionError'', x_message = Some ''expected 1 to equal 2'',
      x_stack = None, x_diff = None\<rparr>"

definition one_run :: "runner_event list" where
  "one_run =
     [Start ''r1'' 1000, Suite_or_hook, Test test_adds ''t1'' 1001, Pass test_adds 1013,
      Test test_divides ''t2'' 1014, Fail test_divides division_error 1021]"

text \<open>
  A session that connects, misses the start of test 1, subscribes to run r1, gets the start
  of test 2, drops, and comes back: it gets a welcome, and from the room again only after it
  has subscribed again.
\<close>

definition hub_trace :: "nat hub_step list" where
  "hub_trace =
     [Connects ''s'', Answer ''s'' ''welcome'' 0,
      Test_started ''r1'' 1,
      Subscribe_test_run ''s'' ''r1'',
      Test_started ''r1'' 2,
      Test_started ''r2'' 7,
      Disconnects ''s'',
      Test_completed ''r1'' 3,
      Connects ''s'', Answer ''s'' ''welcome'' 0,
      Test_completed ''r1'' 4,
      Subscribe_test_run ''s'' ''r1'',
      Screenshot_taken ''r1'' 5,
      Unsubscribe_test_run ''s'' ''r1'',
      Test_run_completed ''r1'' 6]"

text \<open>
  Results of three tests, at noon of day 100: ten of \<^verbatim>\<open>math adds\<close> in the last ten days, two of
  them failed; five of \<^verbatim>\<open>math divides\<close>, all failed; and five of \<^verbatim>\<open>math rounds\<close>, one failed, all
  from the early morning of day 70, thirty days and some hours ago.
\<close>

definition a_test :: "string \<Rightarrow> string \<times> string \<times> int \<Rightarrow> row" where
  "a_test full_title x =
     (case x of (ident, state, start) \<Rightarrow>
        mk_row [(''id'', SText ident), (''run_id'', SText ''a''),
                (''full_title'', SText full_title), (''file'', SText ''math.cy.ts''),
                (''state'', SText state), (''start_time'', SInt start)])"

definition noon_100 :: int where
  "noon_100 = day 100 + 43200000"

definition adds_results :: "row list" where
  "adds_results =
     map (a_test ''math adds'')
       [(''a0'', ''passed'', day 90), (''a1'', ''passed'', day 91), (''a2'', ''passed'', day 92),
        (''a3'', ''passed'', day 93), (''a4'', ''failed'', day 94), (''a5'', ''failed'', day 95),
        (''a6'', ''passed'', day 96), (''a7'', ''passed'', day 97), (''a8'', ''passed'', day 98),
        (''a9'', ''passed'', day 99)]"

definition divides_results :: "row list" where
  "divides_results =
     map (a_test ''math divides'')
       [(''d0'', ''failed'', day 95), (''d1'', ''failed'', day 96), (''d2'', ''failed'', day 97),
        (''d3'', ''failed'', day 98), (''d4'', ''failed'', day 99)]"

definition rounds_results :: "row list" where
  "rounds_results =
     map (a_test ''math rounds'')
       [(''r0'', ''failed'', day 70 + 3600000), (''r1'', ''passed'', day 70 + 3600001),
        (''r2'', ''passed'', day 70 + 3600002), (''r3'', ''passed'', day 70 + 3600003),
        (''r4'', ''passed'', day 70 + 3600004)]"

definition flaky_db :: db where
  "flaky_db = \<lparr>test_runs = [run_a], test_results = adds_results @ divides_results, screenshots = []\<rparr>"

definition edge_db :: db where
  "edge_db = \<lparr>test_runs = [run_a], test_results = rounds_results, screenshots = []\<rparr>"

definition adds_key :: "sql_value \<times> sql_value" where
  "adds_key = (SText ''math adds'', SText ''math.cy.ts'')"

definition divides_key :: "sql_value \<times> sql_value" where
  "divides_key = (SText ''math divides'', SText ''math.cy.ts'')"

definition rounds_key :: "sql_value \<times> sql_value" where
  "rounds_key = (SText ''math rounds'', SText ''math.cy.ts'')"

text \<open>
  Five results, three passed and two failed, stored out of the order of their start times;
  and two results to search: \<^verbatim>\<open>adds\<close> passed after two retries, \<^verbatim>\<open>divides\<close> failed at once.
\<close>

definition mixed_db :: db where
  "mixed_db =
     \<lparr>test_runs = [run_a],
      test_results =
        map (a_test ''math adds'')
          [(''p1'', ''passed'', 100), (''f1'', ''failed'', 300), (''p2'', ''passed'', 200),
           (''f2'', ''failed'', 500), (''p3'', ''passed'', 400)],
      screenshots = []\<rparr>"

definition failed_filter :: TestFilter where
  "failed_filter = no_filter\<lparr>f_status := Some [''failed'']\<rparr>"

definition search_db :: db where
  "search_db =
     \<lparr>test_runs = [run_a],
      test_results =
        [mk_row [(''id'', SText ''s1''), (''run_id'', SText ''a''), (''title'', SText ''adds''),
                 (''full_title'', SText ''math adds''), (''state'', SText ''passed''),
                 (''duration'', SInt 12), (''retries'', SInt 2), (''file'', SText ''math.cy.ts''),
                 (''tags'', SJson (JArr [JStr ''smoke''])), (''start_time'', SInt 100)],
         mk_row [(''id'', SText ''s2''), (''run_id'', SText ''a''), (''title'', SText ''divides''),
                 (''full_title'', SText ''math divides''), (''state'', SText ''failed''),
                 (''error_message'', SText ''division by zero''),
                 (''duration'', SInt 40), (''retries'', SInt 0), (''file'', SText ''math.cy.ts''),
                 (''screenshot_path'', SText ''/shots/divides.png''), (''start_time'', SInt 200)]],
      screenshots = []\<rparr>"

definition smoke_filter :: TestFilter where
  "smoke_filter =
     no_filter\<lparr>f_search := Some ''Math'', f_tags := Some [''smoke'', ''slow''],
               f_duration := Some (Some 10, None), f_retries := Some True,
               f_hasScreenshots := Some False, f_dateRange := Some (0, 150)\<rparr>"

section \<open>Properties\<close>

subsection \<open>Conditions and ordering\<close>

lemma foldr_sql_and_true:
  "(foldr sql_and bs (Some True) = Some True) \<longleftrightarrow> (\<forall>b \<in> set bs. b = Some True)"
  by (induction bs) (auto simp: sql_and_def split: if_splits)

lemma where_clause_iff:
  "where_clause cs r \<longleftrightarrow> (\<forall>c \<in> set cs. eval_cond r c = Some True)"
  by (simp add: where_clause_def foldr_sql_and_true)

lemma where_clause_append:
  "where_clause (cs @ ds) r \<longleftrightarrow> where_clause cs r \<and> where_clause ds r"
  by (auto simp: where_clause_iff)

lemma where_clause_Nil: "where_clause [] r"
  by (simp add: where_clause_iff)

lemma hit_iff: "where_clause [Eq_text c x] r \<longleftrightarrow> cell_text (r c) = Some x"
  by (auto simp: where_clause_iff in_texts_def)

lemma older_iff: "where_clause [Lt c k] r \<longleftrightarrow> (\<exists>n. r c = SInt n \<and> n < k)"
  by (cases "r c") (auto simp: where_clause_iff)

lemma mapTestStatusToRunStatus_eq:
  "mapTestStatusToRunStatus ss =
     (if ''failed'' \<in> set ss then [''failed''] else [])
     @ (if ''passed'' \<in> set ss then [''completed''] else [])"
  by (simp add: mapTestStatusToRunStatus_def)

lemma findAll_conditions_status:
  "findAll_conditions (Some (f\<lparr>f_status := Some ss\<rparr>)) =
     findAll_conditions (Some (f\<lparr>f_status := None\<rparr>))
     @ (if mapTestStatusToRunStatus ss = [] then [] else [In_list ''status'' (mapTestStatusToRunStatus ss)])"
  by (auto simp: findAll_conditions_def mapTestStatusToRunStatus_eq Let_def split: option.splits prod.splits)

lemma mset_insert_by: "mset (insert_by le x xs) = add_mset x (mset xs)"
  by (induction xs) auto

lemma mset_sort_by: "mset (sort_by le xs) = mset xs"
  by (induction xs) (auto simp: sort_by_def mset_insert_by)

lemma set_sort_by: "set (sort_by le xs) = set xs"
  using mset_sort_by [of le xs] by (metis set_mset_mset)

lemma sorted_insert_by:
  assumes tot: "\<And>a b. le a b \<or> le b a" and tr: "\<And>a b c. le a b \<Longrightarrow> le b c \<Longrightarrow> le a c"
  shows "sorted_wrt le xs \<Longrightarrow> sorted_wrt le (insert_by le x xs)"
proof (induction xs)
  case Nil
  then show ?case by simp
next
  case (Cons y ys)
  have s: "set (insert_by le x ys) = insert x (set ys)"
    using mset_insert_by [of le x ys] by (metis set_mset_add_mset_insert set_mset_mset)
  show ?case
  proof (cases "le x y")
    case True
    then show ?thesis using Cons.prems tr by auto
  next
    case False
    then have "le y x" using tot by blast
    then show ?thesis using Cons False s by auto
  qed
qed

lemma sorted_sort_by:
  assumes tot: "\<And>a b. le a b \<or> le b a" and tr: "\<And>a b c. le a b \<Longrightarrow> le b c \<Longrightarrow> le a c"
  shows "sorted_wrt le (sort_by le xs)"
proof (induction xs)
  case Nil
  then show ?case by (simp add: sort_by_def)
next
  case (Cons x xs)
  then show ?case
    using sorted_insert_by [of le "sort_by le xs" x, OF tot tr]
    by (simp add: sort_by_def)
qed

lemma sorted_order_by_desc: "sorted_wrt (desc_le c) (order_by_desc c rows)"
  unfolding order_by_desc_def
  by (rule sorted_sort_by) (auto simp: desc_le_def)

lemma mset_order_by_desc: "mset (order_by_desc c rows) = mset rows"
  by (simp add: order_by_desc_def mset_sort_by)

subsection \<open>Status filter of the run repository\<close>


subsection \<open>Updates that set no column\<close>

lemma set_entry_id [simp]: "set_entry ''id'' v b = []"
  by (simp add: set_entry_def split: option.splits)

lemma set_entry_None [simp]: "set_entry k None b = []"
  by (simp add: set_entry_def)

text \<open>
  Claim C9. For both repositories, \<^verbatim>\<open>update(id, patch)\<close> with a patch in which no key is
  defined, or only \<^verbatim>\<open>id\<close>, builds an empty \<^verbatim>\<open>SET\<close> clause, and with an empty \<^verbatim>\<open>SET\<close> clause
  it returns successfully and leaves the store as it is, whatever rows the store has: the
  check for a missing row is not reached.
\<close>

theorem update_without_columns:
  "run_set_clause (no_run_patch\<lparr>pr_id := i\<rparr>) = []
   \<and> result_set_clause (no_result_patch\<lparr>pt_id := j\<rparr>) = []
   \<and> (run_set_clause p = [] \<longrightarrow> update_run ident p now d = (Inr (), d))
   \<and> (result_set_clause q = [] \<longrightarrow> update_result ident q now d = (Inr (), d))"
  by (simp add: run_set_clause_def result_set_clause_def no_run_patch_def no_result_patch_def
      update_run_def update_result_def)

theorem update_without_columns_witness:
  "run_set_clause (no_run_patch\<lparr>pr_id := Some ''ghost''\<rparr>) = []
   \<and> test_runs empty_db = []
   \<and> update_run ''ghost'' (no_run_patch\<lparr>pr_id := Some ''ghost''\<rparr>) 7 empty_db = (Inr (), empty_db)
   \<and> update_result ''ghost'' no_result_patch 7 empty_db = (Inr (), empty_db)"
  using update_without_columns [of "Some ''ghost''" None "no_run_patch\<lparr>pr_id := Some ''ghost''\<rparr>"
      "''ghost''" 7 empty_db "no_result_patch"]
    update_without_columns [of None None "no_run_patch" "''ghost''" 7 empty_db "no_result_patch\<lparr>pt_id := None\<rparr>"]
  by (simp add: empty_db_def no_result_patch_def)

subsection \<open>Deleting a run\<close>

lemma sql_delete_runs_eq:
  "sql_delete_runs [Eq_text ''id'' ident] d =
     (length (filter (has_id ident) (test_runs d)),
      \<lparr>test_runs = filter (\<lambda>r. \<not> has_id ident r) (test_runs d),
       test_results =
         filter (\<lambda>t. \<not> owned_by ''run_id'' (filter (has_id ident) (test_runs d)) t)
           (test_results d),
       screenshots =
         filter (\<lambda>s. \<not> owned_by ''test_result_id''
                       (filter (owned_by ''run_id'' (filter (has_id ident) (test_runs d)))
                          (test_results d)) s)
           (screenshots d)\<rparr>)"
  by (simp add: sql_delete_runs_def Let_def hit_iff has_id_def owned_by_def cong: filter_cong)

lemma refers_Nil [simp]: "\<not> refers c [] x"
  by (simp add: refers_def)

lemma fk_ok_delete:
  assumes "fk_ok d"
  shows "fk_ok (snd (sql_delete_runs conds d))"
proof -
  let ?gone = "filter (where_clause conds) (test_runs d)"
  let ?gone_ids = "map (\<lambda>r. r ''id'') ?gone"
  let ?gone_results = "filter (refers ''run_id'' ?gone_ids) (test_results d)"
  let ?d' = "snd (sql_delete_runs conds d)"
  have runs: "test_runs ?d' = filter (\<lambda>r. \<not> where_clause conds r) (test_runs d)"
    and results: "test_results ?d' = filter (\<lambda>t. \<not> refers ''run_id'' ?gone_ids t) (test_results d)"
    and shots: "screenshots ?d' =
      filter (\<lambda>s. \<not> refers ''test_result_id'' (map (\<lambda>t. t ''id'') ?gone_results) s) (screenshots d)"
    by (simp_all add: sql_delete_runs_def Let_def)
  have a: "refers ''run_id'' (map (\<lambda>r. r ''id'') (test_runs ?d')) t"
    if "t \<in> set (test_results ?d')" for t
  proof -
    from that have t: "t \<in> set (test_results d)" and n: "\<not> refers ''run_id'' ?gone_ids t"
      by (simp_all add: results)
    from t assms have "refers ''run_id'' (map (\<lambda>r. r ''id'') (test_runs d)) t"
      by (simp add: fk_ok_def owned_by_def)
    then obtain r where r: "r \<in> set (test_runs d)" "t ''run_id'' = r ''id''" "t ''run_id'' \<noteq> SNull"
      by (auto simp: refers_def)
    with n have "\<not> where_clause conds r"
      by (auto simp: refers_def)
    with r show ?thesis
      by (auto simp: refers_def runs)
  qed
  have b: "refers ''test_result_id'' (map (\<lambda>t. t ''id'') (test_results ?d')) s"
    if "s \<in> set (screenshots ?d')" for s
  proof -
    from that have s: "s \<in> set (screenshots d)"
      and n: "\<not> refers ''test_result_id'' (map (\<lambda>t. t ''id'') ?gone_results) s"
      by (simp_all add: shots)
    from s assms have "refers ''test_result_id'' (map (\<lambda>t. t ''id'') (test_results d)) s"
      by (simp add: fk_ok_def owned_by_def)
    then obtain t where t: "t \<in> set (test_results d)" "s ''test_result_id'' = t ''id''"
        "s ''test_result_id'' \<noteq> SNull"
      by (auto simp: refers_def)
    with n have "\<not> refers ''run_id'' ?gone_ids t"
      by (auto simp: refers_def)
    with t show ?thesis
      by (auto simp: refers_def results)
  qed
  show ?thesis
    unfolding fk_ok_def owned_by_def using a b by blast
qed

text \<open>
  Claim C2. \<^verbatim>\<open>delete(id)\<close> of the run repository fails with \<open>NotFound\<close> and leaves the store
  unchanged when no run row has the id. When one has, the store afterwards is the one
  without that row, without the result rows owned by it and without the screenshot rows
  owned by those results. A store in which every result refers to a run and every
  screenshot to a result is again such a store afterwards.
\<close>

theorem delete_run_cascade:
  "((\<forall>r \<in> set (test_runs d). \<not> has_id ident r) \<longrightarrow>
      delete_run ident d = (Inl (NotFound ident), d))
   \<and> ((\<exists>r \<in> set (test_runs d). has_id ident r) \<longrightarrow>
      delete_run ident d =
        (Inr (),
         \<lparr>test_runs = filter (\<lambda>r. \<not> has_id ident r) (test_runs d),
          test_results =
            filter (\<lambda>t. \<not> owned_by ''run_id'' (filter (has_id ident) (test_runs d)) t)
              (test_results d),
          screenshots =
            filter (\<lambda>s. \<not> owned_by ''test_result_id''
                          (filter (owned_by ''run_id'' (filter (has_id ident) (test_runs d)))
                             (test_results d)) s)
              (screenshots d)\<rparr>))
   \<and> (fk_ok d \<longrightarrow> fk_ok (snd (delete_run ident d)))"
proof (intro conjI impI)
  assume none: "\<forall>r \<in> set (test_runs d). \<not> has_id ident r"
  then have "filter (has_id ident) (test_runs d) = []"
    by (simp add: filter_empty_conv)
  moreover have "filter (\<lambda>r. \<not> has_id ident r) (test_runs d) = test_runs d"
    using none by simp
  ultimately show "delete_run ident d = (Inl (NotFound ident), d)"
    by (simp add: delete_run_def sql_delete_runs_eq owned_by_def)
next
  assume "\<exists>r \<in> set (test_runs d). has_id ident r"
  then have "filter (has_id ident) (test_runs d) \<noteq> []"
    by (simp add: filter_empty_conv)
  then show "delete_run ident d =
        (Inr (),
         \<lparr>test_runs = filter (\<lambda>r. \<not> has_id ident r) (test_runs d),
          test_results =
            filter (\<lambda>t. \<not> owned_by ''run_id'' (filter (has_id ident) (test_runs d)) t)
              (test_results d),
          screenshots =
            filter (\<lambda>s. \<not> owned_by ''test_result_id''
                          (filter (owned_by ''run_id'' (filter (has_id ident) (test_runs d)))
                             (test_results d)) s)
              (screenshots d)\<rparr>)"
    by (simp add: delete_run_def sql_delete_runs_eq)
next
  assume "fk_ok d"
  then have "fk_ok (snd (sql_delete_runs [Eq_text ''id'' ident] d))"
    by (rule fk_ok_delete)
  then show "fk_ok (snd (delete_run ident d))"
    by (cases "sql_delete_runs [Eq_text ''id'' ident] d") (simp add: delete_run_def)
qed

theorem delete_run_cascade_witness:
  "(\<exists>r \<in> set (test_runs two_runs). has_id ''a'' r) \<and> fk_ok two_runs
   \<and> delete_run ''a'' two_runs =
       (Inr (), \<lparr>test_runs = [run_b], test_results = [res_b], screenshots = [shot_b]\<rparr>)
   \<and> fk_ok (snd (delete_run ''a'' two_runs))
   \<and> \<not> (\<exists>r \<in> set (test_runs two_runs). has_id ''zz'' r)
   \<and> delete_run ''zz'' two_runs = (Inl (NotFound ''zz''), two_runs)"
proof -
  have ex: "\<exists>r \<in> set (test_runs two_runs). has_id ''a'' r"
    by (simp add: two_runs_def has_id_def run_a_def mk_row_def)
  have no: "\<forall>r \<in> set (test_runs two_runs). \<not> has_id ''zz'' r"
    by (simp add: two_runs_def has_id_def run_a_def run_b_def mk_row_def)
  have fk: "fk_ok two_runs"
    by (simp add: fk_ok_def owned_by_def refers_def two_runs_def run_a_def run_b_def res_a_def
        res_b_def shot_a_def shot_b_def mk_row_def)
  have a: "has_id ''a'' run_a" "\<not> has_id ''a'' run_b"
    by (simp_all add: has_id_def run_a_def run_b_def mk_row_def)
  have b: "owned_by ''run_id'' [run_a] res_a" "\<not> owned_by ''run_id'' [run_a] res_b"
    by (simp_all add: owned_by_def refers_def run_a_def res_a_def res_b_def mk_row_def)
  have c: "owned_by ''test_result_id'' [res_a] shot_a" "\<not> owned_by ''test_result_id'' [res_a] shot_b"
    by (simp_all add: owned_by_def refers_def shot_a_def shot_b_def res_a_def mk_row_def)
  have d1: "delete_run ''a'' two_runs =
       (Inr (), \<lparr>test_runs = [run_b], test_results = [res_b], screenshots = [shot_b]\<rparr>)"
    using delete_run_cascade [of two_runs "''a''"] ex a b c by (simp add: two_runs_def)
  have d2: "fk_ok (snd (delete_run ''a'' two_runs))"
    using delete_run_cascade [of two_runs "''a''"] fk by simp
  have d3: "delete_run ''zz'' two_runs = (Inl (NotFound ''zz''), two_runs)"
    using delete_run_cascade [of two_runs "''zz''"] no by simp
  show ?thesis
    using ex fk d1 d2 no d3 by simp
qed

subsection \<open>Updating a run or a result\<close>

lemma snake [simp]:
  "camelToSnakeCase ''startTime'' = ''start_time''"
  "camelToSnakeCase ''endTime'' = ''end_time''"
  "camelToSnakeCase ''duration'' = ''duration''"
  "camelToSnakeCase ''totalTests'' = ''total_tests''"
  "camelToSnakeCase ''passed'' = ''passed''"
  "camelToSnakeCase ''failed'' = ''failed''"
  "camelToSnakeCase ''skipped'' = ''skipped''"
  "camelToSnakeCase ''pending'' = ''pending''"
  "camelToSnakeCase ''retries'' = ''retries''"
  "camelToSnakeCase ''browserName'' = ''browser_name''"
  "camelToSnakeCase ''browserVersion'' = ''browser_version''"
  "camelToSnakeCase ''cypressVersion'' = ''cypress_version''"
  "camelToSnakeCase ''specFiles'' = ''spec_files''"
  "camelToSnakeCase ''config'' = ''config''"
  "camelToSnakeCase ''ciInfo'' = ''ci_info''"
  "camelToSnakeCase ''status'' = ''status''"
  "camelToSnakeCase ''results'' = ''results''"
  "camelToSnakeCase ''runId'' = ''run_id''"
  "camelToSnakeCase ''title'' = ''title''"
  "camelToSnakeCase ''fullTitle'' = ''full_title''"
  "camelToSnakeCase ''state'' = ''state''"
  "camelToSnakeCase ''screenshot'' = ''screenshot''"
  "camelToSnakeCase ''currentRetry'' = ''current_retry''"
  "camelToSnakeCase ''file'' = ''file''"
  "camelToSnakeCase ''parent'' = ''parent''"
  "camelToSnakeCase ''context'' = ''context''"
  "camelToSnakeCase ''tags'' = ''tags''"
  by code_simp+

lemma set_entry_cell_opt:
  "k \<noteq> ''id'' \<Longrightarrow> set_entry k v b = cell_opt (camelToSnakeCase k) (map_option b v)"
  by (simp add: set_entry_def cell_opt_def split: option.splits)

lemma run_set_clause_cells:
  "run_set_clause p =
     cell_opt ''start_time'' (map_option SInt (pr_startTime p))
     @ cell_opt ''end_time'' (map_option SInt (pr_endTime p))
     @ cell_opt ''duration'' (map_option SInt (pr_duration p))
     @ cell_opt ''total_tests'' (map_option SInt (pr_totalTests p))
     @ cell_opt ''passed'' (map_option SInt (pr_passed p))
     @ cell_opt ''failed'' (map_option SInt (pr_failed p))
     @ cell_opt ''skipped'' (map_option SInt (pr_skipped p))
     @ cell_opt ''pending'' (map_option SInt (pr_pending p))
     @ cell_opt ''retries'' (map_option SInt (pr_retries p))
     @ cell_opt ''browser_name'' (map_option SText (pr_browserName p))
     @ cell_opt ''browser_version'' (map_option SText (pr_browserVersion p))
     @ cell_opt ''cypress_version'' (map_option SText (pr_cypressVersion p))
     @ cell_opt ''spec_files'' (map_option (\<lambda>xs. SJson (JArr (map JStr xs))) (pr_specFiles p))
     @ cell_opt ''config'' (map_option SJson (pr_config p))
     @ cell_opt ''ci_info'' (map_option SJson (pr_ciInfo p))
     @ cell_opt ''status'' (map_option SText (pr_status p))
     @ cell_opt ''results'' (map_option bound_objects (pr_results p))"
  unfolding run_set_clause_def
  by (simp only: set_entry_id set_entry_cell_opt snake append_Nil list.simps char.simps simp_thms)

lemma fst_cell_opt: "fst ` set (cell_opt c v) = {x. x = c \<and> v \<noteq> None}"
  by (auto simp: cell_opt_def split: option.splits)

lemma distinct_cell_opt [simp]: "distinct (map fst (cell_opt c v))"
  by (simp add: cell_opt_def split: option.splits)

lemma map_of_cell_opt_app:
  "map_of (cell_opt c v @ xs) c' = (if c' = c \<and> v \<noteq> None then v else map_of xs c')"
  by (auto simp: cell_opt_def split: option.splits)

lemma map_of_cell_opt:
  "map_of (cell_opt c v) c' = (if c' = c then v else None)"
  by (auto simp: cell_opt_def split: option.splits)

lemma distinct_run_set_clause: "distinct (map fst (run_set_clause p))"
  by (simp add: run_set_clause_cells fst_cell_opt image_Un disjoint_iff)

lemma assign_eval:
  "distinct (map fst sets) \<Longrightarrow>
     assign sets r c = (case map_of sets c of Some v \<Rightarrow> v | None \<Rightarrow> r c)"
proof (induction sets arbitrary: r)
  case Nil
  then show ?case by (simp add: assign_def)
next
  case (Cons kv sets)
  obtain k v where kv: "kv = (k, v)" by (cases kv)
  from Cons.prems kv have d: "distinct (map fst sets)" and k: "k \<notin> fst ` set sets"
    by auto
  have "assign (kv # sets) r c = assign sets (r(k := v)) c"
    by (simp add: assign_def kv)
  also have "\<dots> = (case map_of sets c of Some v' \<Rightarrow> v' | None \<Rightarrow> (r(k := v)) c)"
    using Cons.IH [OF d] .
  also have "\<dots> = (case map_of (kv # sets) c of Some v' \<Rightarrow> v' | None \<Rightarrow> r c)"
  proof -
    from k have "map_of sets k = None"
      by (simp add: map_of_eq_None_iff)
    then show ?thesis
      by (simp add: kv split: option.splits)
  qed
  finally show ?case .
qed

lemma assign_run_set_clause:
  "assign (run_set_clause p) r c =
     (case map_of (run_set_clause p) c of Some v \<Rightarrow> v | None \<Rightarrow> r c)"
  by (rule assign_eval) (rule distinct_run_set_clause)

lemma map_of_run_start_time:
  "map_of (run_set_clause p) ''start_time'' = map_option SInt (pr_startTime p)"
  by (simp add: run_set_clause_cells map_of_cell_opt_app map_of_cell_opt del: map_of_append)

lemma map_of_run_status:
  "pr_results p = None \<Longrightarrow> map_of (run_set_clause p) ''status'' = map_option SText (pr_status p)"
  by (simp add: run_set_clause_cells map_of_cell_opt_app map_of_cell_opt del: map_of_append)

lemma run_columns_ok:
  "pr_results p = None \<Longrightarrow> find (\<lambda>c. c \<notin> set run_columns) (map fst (run_set_clause p)) = None"
  by (auto simp: find_None_iff run_set_clause_cells cell_opt_def run_columns_def split: option.splits)

lemma hit_has_id: "where_clause [Eq_text ''id'' ident] = has_id ident"
  by (simp add: fun_eq_iff hit_iff has_id_def)

lemma check_in_text: "check_in (SText s) xs \<longleftrightarrow> s \<in> set xs"
  by (simp add: check_in_def in_texts_def)

lemma run_row_ok_assign:
  assumes "run_patch_ok p" and "run_row_ok r"
  shows "run_row_ok (assign (run_set_clause p) r)"
proof -
  from assms(1) have res: "pr_results p = None"
    and st: "\<And>s. pr_status p = Some s \<Longrightarrow> s \<in> set run_statuses"
    by (simp_all add: run_patch_ok_def)
  have "assign (run_set_clause p) r ''start_time'' \<noteq> SNull"
    using assms(2)
    by (cases "pr_startTime p")
      (simp_all add: assign_run_set_clause map_of_run_start_time run_row_ok_def)
  moreover have "check_in (assign (run_set_clause p) r ''status'') run_statuses"
    using assms(2) st res
    by (cases "pr_status p")
      (simp_all add: assign_run_set_clause map_of_run_status run_row_ok_def check_in_text)
  ultimately show ?thesis
    by (simp add: run_row_ok_def)
qed

lemma updated_row_eval:
  "distinct (map fst sets) \<Longrightarrow>
     updated_row sets now r =
       (\<lambda>c. if c = ''updated_at'' then SInt now
            else case map_of sets c of Some v \<Rightarrow> v | None \<Rightarrow> r c)"
  by (simp add: updated_row_def fun_eq_iff assign_eval)

lemma sql_update_runs_ok:
  assumes "run_patch_ok p" and "\<forall>r \<in> set (test_runs d). run_row_ok r"
  shows "sql_update_runs (run_set_clause p) ident now d =
     (Inr (length (filter (has_id ident) (test_runs d))),
      d\<lparr>test_runs :=
          map (\<lambda>r. if has_id ident r then updated_row (run_set_clause p) now r else r)
            (test_runs d)\<rparr>)"
proof -
  from assms(1) have "pr_results p = None"
    by (simp add: run_patch_ok_def)
  then have cols: "find (\<lambda>c. c \<notin> set run_columns) (map fst (run_set_clause p)) = None"
    by (rule run_columns_ok)
  have ok: "\<not> (\<exists>r \<in> set (filter (has_id ident) (test_runs d)).
      \<not> run_row_ok (assign (run_set_clause p) r))"
    using assms by (auto intro: run_row_ok_assign)
  show ?thesis
    using ok by (simp add: sql_update_runs_def cols hit_has_id Let_def)
qed

lemma map_no_hit: "\<forall>x \<in> set xs. \<not> P x \<Longrightarrow> map (\<lambda>x. if P x then f x else x) xs = xs"
  by (induction xs) auto

lemma update_run_cases:
  assumes "run_set_clause p \<noteq> []" and "run_patch_ok p" and "\<forall>r \<in> set (test_runs d). run_row_ok r"
  shows "((\<forall>r \<in> set (test_runs d). \<not> has_id ident r) \<longrightarrow>
            update_run ident p now d = (Inl (NotFound ident), d))
       \<and> ((\<exists>r \<in> set (test_runs d). has_id ident r) \<longrightarrow>
            update_run ident p now d =
              (Inr (),
               d\<lparr>test_runs :=
                   map (\<lambda>r. if has_id ident r then updated_row (run_set_clause p) now r else r)
                     (test_runs d)\<rparr>))"
proof (intro conjI impI)
  assume none: "\<forall>r \<in> set (test_runs d). \<not> has_id ident r"
  then have "filter (has_id ident) (test_runs d) = []"
    by (simp add: filter_empty_conv)
  then show "update_run ident p now d = (Inl (NotFound ident), d)"
    using assms none by (simp add: update_run_def sql_update_runs_ok map_no_hit)
next
  assume "\<exists>r \<in> set (test_runs d). has_id ident r"
  then have "filter (has_id ident) (test_runs d) \<noteq> []"
    by (simp add: filter_empty_conv)
  then show "update_run ident p now d =
      (Inr (),
       d\<lparr>test_runs :=
           map (\<lambda>r. if has_id ident r then updated_row (run_set_clause p) now r else r)
             (test_runs d)\<rparr>)"
    using assms by (simp add: update_run_def sql_update_runs_ok)
qed

lemma cells_two:
  "(case v of None \<Rightarrow> [] | Some x \<Rightarrow> [(a, f x), (b, g x)]) =
     cell_opt a (map_option f v) @ cell_opt b (map_option g v)"
  by (cases v) (simp_all add: cell_opt_def)

lemma cells_four:
  "(case v of None \<Rightarrow> [] | Some x \<Rightarrow> [(a, f x), (b, g x), (c, h x), (d, k x)]) =
     cell_opt a (map_option f v) @ cell_opt b (map_option g v)
     @ cell_opt c (map_option h v) @ cell_opt d (map_option k v)"
  by (cases v) (simp_all add: cell_opt_def)

lemma result_set_clause_cells:
  "result_set_clause p =
     cell_opt ''run_id'' (map_option SText (pt_runId p))
     @ cell_opt ''title'' (map_option SText (pt_title p))
     @ cell_opt ''full_title'' (map_option SText (pt_fullTitle p))
     @ cell_opt ''state'' (map_option SText (pt_state p))
     @ cell_opt ''duration'' (map_option SInt (pt_duration p))
     @ cell_opt ''error_name'' (map_option (\<lambda>e. SText (e_name e)) (pt_error p))
     @ cell_opt ''error_message'' (map_option (\<lambda>e. SText (e_message e)) (pt_error p))
     @ cell_opt ''error_stack'' (map_option (\<lambda>e. text_or_null (e_stack e)) (pt_error p))
     @ cell_opt ''error_diff'' (map_option (\<lambda>e. text_or_null (e_diff e)) (pt_error p))
     @ cell_opt ''screenshot'' (map_option SText (pt_screenshot p))
     @ cell_opt ''retries'' (map_option SInt (pt_retries p))
     @ cell_opt ''current_retry'' (map_option SInt (pt_currentRetry p))
     @ cell_opt ''pending'' (map_option (\<lambda>b. SInt (if b then 1 else 0)) (pt_pending p))
     @ cell_opt ''file'' (map_option SText (pt_file p))
     @ cell_opt ''parent'' (map_option SText (pt_parent p))
     @ cell_opt ''context'' (map_option SText (pt_context p))
     @ cell_opt ''tags'' (map_option (\<lambda>xs. SJson (JArr (map JStr xs))) (pt_tags p))
     @ cell_opt ''start_time'' (map_option SInt (pt_startTime p))
     @ cell_opt ''end_time'' (map_option SInt (pt_endTime p))
     @ cell_opt ''browser_name'' (map_option (\<lambda>b. SText (b_name b)) (pt_browser p))
     @ cell_opt ''browser_version'' (map_option (\<lambda>b. SText (b_version b)) (pt_browser p))
     @ cell_opt ''viewport_width'' (map_option (\<lambda>v. SInt (v_width v)) (pt_viewport p))
     @ cell_opt ''viewport_height'' (map_option (\<lambda>v. SInt (v_height v)) (pt_viewport p))"
  unfolding result_set_clause_def
  by (simp only: set_entry_id set_entry_cell_opt snake append_Nil append_assoc list.simps
      char.simps simp_thms cells_two cells_four)

lemma distinct_result_set_clause: "distinct (map fst (result_set_clause p))"
  by (simp add: result_set_clause_cells fst_cell_opt image_Un disjoint_iff)

lemma assign_result_set_clause:
  "assign (result_set_clause p) r c =
     (case map_of (result_set_clause p) c of Some v \<Rightarrow> v | None \<Rightarrow> r c)"
  by (rule assign_eval) (rule distinct_result_set_clause)

lemma map_of_result_cols:
  "map_of (result_set_clause p) ''run_id'' = map_option SText (pt_runId p)"
  "map_of (result_set_clause p) ''title'' = map_option SText (pt_title p)"
  "map_of (result_set_clause p) ''full_title'' = map_option SText (pt_fullTitle p)"
  "map_of (result_set_clause p) ''state'' = map_option SText (pt_state p)"
  by (simp_all add: result_set_clause_cells map_of_cell_opt_app map_of_cell_opt del: map_of_append)

lemma result_columns_ok:
  "pt_screenshot p = None \<Longrightarrow>
     find (\<lambda>c. c \<notin> set result_columns) (map fst (result_set_clause p)) = None"
  by (auto simp: find_None_iff result_set_clause_cells cell_opt_def result_columns_def
      split: option.splits)

lemma result_row_ok_assign:
  assumes "result_patch_ok d p" and "result_row_ok (map (\<lambda>r. r ''id'') (test_runs d)) t"
  shows "result_row_ok (map (\<lambda>r. r ''id'') (test_runs d)) (assign (result_set_clause p) t)"
proof -
  let ?t' = "assign (result_set_clause p) t"
  let ?ids = "map (\<lambda>r. r ''id'') (test_runs d)"
  from assms(1) have st: "\<And>s. pt_state p = Some s \<Longrightarrow> s \<in> set result_states"
    and fk: "\<And>rid. pt_runId p = Some rid \<Longrightarrow> SText rid \<in> set ?ids"
    by (simp_all add: result_patch_ok_def)
  have a: "?t' ''run_id'' \<noteq> SNull \<and> ?t' ''run_id'' \<in> set ?ids"
    using assms(2) fk
    by (cases "pt_runId p") (simp_all add: assign_result_set_clause map_of_result_cols result_row_ok_def)
  have b: "?t' ''title'' \<noteq> SNull"
    using assms(2)
    by (cases "pt_title p") (simp_all add: assign_result_set_clause map_of_result_cols result_row_ok_def)
  have c: "?t' ''full_title'' \<noteq> SNull"
    using assms(2)
    by (cases "pt_fullTitle p") (simp_all add: assign_result_set_clause map_of_result_cols result_row_ok_def)
  have e: "?t' ''state'' \<noteq> SNull \<and> check_in (?t' ''state'') result_states"
    using assms(2) st
    by (cases "pt_state p")
      (simp_all add: assign_result_set_clause map_of_result_cols result_row_ok_def check_in_text)
  show ?thesis
    using a b c e by (simp add: result_row_ok_def)
qed

lemma sql_update_results_ok:
  assumes "result_patch_ok d p"
    and "\<forall>t \<in> set (test_results d). result_row_ok (map (\<lambda>r. r ''id'') (test_runs d)) t"
  shows "sql_update_results (result_set_clause p) ident now d =
     (Inr (length (filter (has_id ident) (test_results d))),
      d\<lparr>test_results :=
          map (\<lambda>t. if has_id ident t then updated_row (result_set_clause p) now t else t)
            (test_results d)\<rparr>)"
proof -
  from assms(1) have "pt_screenshot p = None"
    by (simp add: result_patch_ok_def)
  then have cols: "find (\<lambda>c. c \<notin> set result_columns) (map fst (result_set_clause p)) = None"
    by (rule result_columns_ok)
  have ok: "\<not> (\<exists>t \<in> set (filter (has_id ident) (test_results d)).
      \<not> result_row_ok (map (\<lambda>r. r ''id'') (test_runs d)) (assign (result_set_clause p) t))"
    using assms by (auto intro: result_row_ok_assign)
  show ?thesis
    using ok by (simp add: sql_update_results_def cols hit_has_id Let_def)
qed

lemma update_result_cases:
  assumes "result_set_clause p \<noteq> []" and "result_patch_ok d p"
    and "\<forall>t \<in> set (test_results d). result_row_ok (map (\<lambda>r. r ''id'') (test_runs d)) t"
  shows "((\<forall>t \<in> set (test_results d). \<not> has_id ident t) \<longrightarrow>
            update_result ident p now d = (Inl (NotFound ident), d))
       \<and> ((\<exists>t \<in> set (test_results d). has_id ident t) \<longrightarrow>
            update_result ident p now d =
              (Inr (),
               d\<lparr>test_results :=
                   map (\<lambda>t. if has_id ident t then updated_row (result_set_clause p) now t else t)
                     (test_results d)\<rparr>))"
proof (intro conjI impI)
  assume none: "\<forall>t \<in> set (test_results d). \<not> has_id ident t"
  then have "filter (has_id ident) (test_results d) = []"
    by (simp add: filter_empty_conv)
  then show "update_result ident p now d = (Inl (NotFound ident), d)"
    using assms none by (simp add: update_result_def sql_update_results_ok map_no_hit)
next
  assume "\<exists>t \<in> set (test_results d). has_id ident t"
  then have "filter (has_id ident) (test_results d) \<noteq> []"
    by (simp add: filter_empty_conv)
  then show "update_result ident p now d =
      (Inr (),
       d\<lparr>test_results :=
           map (\<lambda>t. if has_id ident t then updated_row (result_set_clause p) now t else t)
             (test_results d)\<rparr>)"
    using assms by (simp add: update_result_def sql_update_results_ok)
qed

lemma updated_row_run: "updated_row (run_set_clause p) now = patched_row (run_set_clause p) now"
  by (simp add: fun_eq_iff patched_row_def updated_row_eval [OF distinct_run_set_clause])

lemma updated_row_result:
  "updated_row (result_set_clause p) now = patched_row (result_set_clause p) now"
  by (simp add: fun_eq_iff patched_row_def updated_row_eval [OF distinct_result_set_clause])


lemma rows_ok_two_runs: "rows_ok two_runs"
  by (simp add: rows_ok_def two_runs_def run_row_ok_def result_row_ok_def check_in_def
      in_texts_def run_statuses_def result_states_def run_a_def run_b_def res_a_def res_b_def
      mk_row_def)



subsection \<open>Creating a run and reading it back\<close>

lemma find_snoc:
  "find P (xs @ [y]) = (case find P xs of Some x \<Rightarrow> Some x | None \<Rightarrow> if P y then Some y else None)"
  by (induction xs) auto

lemma json_strings_roundtrip: "json_strings (JArr (map JStr xs)) = xs"
  by (induction xs) simp_all

lemma as_int_opt_time_or_null: "as_int_opt (time_or_null x) = x"
  by (cases x) (simp_all add: time_or_null_def)

lemma as_int_opt_or_null: "x \<noteq> Some 0 \<Longrightarrow> as_int_opt (or_null x) = x"
  by (cases x) (simp_all add: or_null_def)

lemma created_row_read:
  assumes "r_duration run \<noteq> Some 0"
  shows "mapRowToTestRun
           (mk_row (create_run_params run @ [(''created_at'', SInt now), (''updated_at'', SInt now)])) =
         run\<lparr>r_results := []\<rparr>"
  using assms
  by (cases run)
    (simp add: mapRowToTestRun_def mk_row_def create_run_params_def as_text_def
      json_strings_roundtrip as_int_opt_time_or_null as_int_opt_or_null
      del: json_strings.simps split: option.splits)

lemma created_row_id:
  "cell_text (mk_row (create_run_params run @ [(''created_at'', SInt now), (''updated_at'', SInt now)])
                ''id'') = Some (r_id run)"
  by (simp add: mk_row_def create_run_params_def)


lemma created_row_ok:
  "r_status run \<in> set run_statuses \<Longrightarrow>
     run_row_ok (mk_row (create_run_params run
                         @ [(''created_at'', SInt now), (''updated_at'', SInt now)]))"
  by (simp add: run_row_ok_def check_in_def in_texts_def mk_row_def create_run_params_def)

lemma create_on_empty:
  "r_status run \<in> set run_statuses \<Longrightarrow>
     create_run run new_id now empty_db =
       (Inr (run\<lparr>r_id := new_id\<rparr>),
        \<lparr>test_runs = [mk_row (create_run_params (run\<lparr>r_id := new_id\<rparr>)
                          @ [(''created_at'', SInt now), (''updated_at'', SInt now)])],
         test_results = [], screenshots = []\<rparr>)"
  using created_row_ok [of "run\<lparr>r_id := new_id\<rparr>" now]
  by (simp add: create_run_def sql_insert_run_def empty_db_def Let_def)



subsection \<open>Retention cleanup\<close>

lemma lt_iff: "where_clause [Lt c k] = before c k"
  by (auto simp: fun_eq_iff where_clause_iff before_def split: sql_value.splits)




subsection \<open>The run at the end event\<close>

lemma count_state_pos: "count_state st results > 0 \<longleftrightarrow> (\<exists>t \<in> set results. t_state t = st)"
  by (simp add: count_state_def filter_empty_conv)

lemma currentRun_test_handlers [simp]:
  "currentRun (handleTestStart env test newId now s) = currentRun s"
  "currentRun (handleTestPass test now s) = currentRun s"
  "currentRun (handleTestFail test err now s) = currentRun s"
  "currentRun (handleTestPending env test newId now s) = currentRun s"
  by (simp_all add: handleTestStart_def handleTestPass_def handleTestFail_def
      handleTestPending_def Let_def split: option.splits)

lemma run_status_retry [simp]: "run_status (handleTestRetry test s) = run_status s"
  by (simp add: handleTestRetry_def run_status_def Let_def split: option.splits)

lemma currentRun_retry_None [simp]:
  "currentRun (handleTestRetry test s) = None \<longleftrightarrow> currentRun s = None"
  by (simp add: handleTestRetry_def Let_def split: option.splits)

lemma run_status_start:
  "run_status (handleRunStart env runId now s) =
     (if getRunConfig env = None then run_status s else Some ''running'')"
  by (simp add: handleRunStart_def run_status_def Let_def split: option.splits)

lemma currentRun_start_None:
  "currentRun (handleRunStart env runId now s) = None \<longleftrightarrow>
     getRunConfig env = None \<and> currentRun s = None"
  by (simp add: handleRunStart_def Let_def split: option.splits)

lemma run_status_end:
  "run_status (handleRunEnd now s) =
     (if currentRun s = None then None
      else if \<exists>t \<in> set (map snd (testResults s)). t_state t = FAILED then Some ''failed''
      else Some ''completed'')"
  by (simp add: handleRunEnd_def run_status_def Let_def count_state_pos split: option.splits)

lemma currentRun_end_None [simp]: "currentRun (handleRunEnd now s) = None \<longleftrightarrow> currentRun s = None"
  by (simp add: handleRunEnd_def Let_def split: option.splits)

lemma in_phase_step: "in_phase ph s \<Longrightarrow> in_phase (phase_step env ph ev) (on_event env s ev)"
proof (cases ev)
  case (Start runId now)
  assume "in_phase ph s"
  then show ?thesis
    by (cases ph) (auto simp: Start in_phase_def run_status_start currentRun_start_None)
next
  case (End now)
  assume a: "in_phase ph s"
  show ?thesis
  proof (cases "ph = No_run")
    case True
    with a show ?thesis
      by (simp add: End in_phase_def)
  next
    case False
    with a have "currentRun s \<noteq> None"
      by (cases ph) (auto simp: in_phase_def run_status_def)
    with False show ?thesis
      by (simp add: End in_phase_def run_status_end)
  qed
next
  case (Retry test)
  assume "in_phase ph s"
  then show ?thesis
    by (cases ph) (auto simp: Retry in_phase_def)
qed (cases ph; simp add: in_phase_def run_status_def)+

lemma in_phase_after: "in_phase (phase_of env evs) (after_events env t0 evs)"
proof (induction evs rule: rev_induct)
  case Nil
  show ?case
    by (simp add: phase_of_def after_events_def new_reporter_def in_phase_def)
next
  case (snoc ev evs)
  then show ?case
    using in_phase_step [of "phase_of env evs" "after_events env t0 evs" env ev]
    by (simp add: phase_of_def after_events_def)
qed

text \<open>
  Claim C7. When the end event comes while there is a current run, the handler sets
  \<open>r_totalTests\<close> to the number of collected results, \<open>r_passed\<close>, \<open>r_failed\<close>, \<open>r_skipped\<close> and
  \<open>r_pending\<close> to the number of collected results in that state, and the status to \<^verbatim>\<open>failed\<close>
  if a collected result failed and to \<^verbatim>\<open>completed\<close> otherwise. After any sequence of runner
  events the status follows the phase: it is \<^verbatim>\<open>running\<close> from the start event of a run until
  the first end event after it, and \<^verbatim>\<open>failed\<close> or \<^verbatim>\<open>completed\<close> from that end event on. So the
  status leaves \<^verbatim>\<open>running\<close> once in the life of a run, at an end event, and is not terminal
  before one.
\<close>

theorem run_end_finalizes:
  "(currentRun s \<noteq> None \<longrightarrow>
      map_option r_totalTests (currentRun (handleRunEnd now s)) = Some (int (length (testResults s)))
      \<and> map_option r_passed (currentRun (handleRunEnd now s)) =
          Some (int (length (filter (\<lambda>t. t_state t = PASSED) (map snd (testResults s)))))
      \<and> map_option r_failed (currentRun (handleRunEnd now s)) =
          Some (int (length (filter (\<lambda>t. t_state t = FAILED) (map snd (testResults s)))))
      \<and> map_option r_skipped (currentRun (handleRunEnd now s)) =
          Some (int (length (filter (\<lambda>t. t_state t = SKIPPED) (map snd (testResults s)))))
      \<and> map_option r_pending (currentRun (handleRunEnd now s)) =
          Some (int (length (filter (\<lambda>t. t_state t = PENDING) (map snd (testResults s)))))
      \<and> run_status (handleRunEnd now s) =
          Some (if \<exists>t \<in> set (map snd (testResults s)). t_state t = FAILED
                then ''failed'' else ''completed''))
   \<and> in_phase (phase_of env evs) (after_events env t0 evs)"
proof (intro conjI impI)
  assume "currentRun s \<noteq> None"
  then obtain run where run: "currentRun s = Some run"
    by auto
  show "map_option r_totalTests (currentRun (handleRunEnd now s)) = Some (int (length (testResults s)))"
    by (simp add: handleRunEnd_def run Let_def)
  show "map_option r_passed (currentRun (handleRunEnd now s)) =
          Some (int (length (filter (\<lambda>t. t_state t = PASSED) (map snd (testResults s)))))"
    by (simp add: handleRunEnd_def run Let_def count_state_def)
  show "map_option r_failed (currentRun (handleRunEnd now s)) =
          Some (int (length (filter (\<lambda>t. t_state t = FAILED) (map snd (testResults s)))))"
    by (simp add: handleRunEnd_def run Let_def count_state_def)
  show "map_option r_skipped (currentRun (handleRunEnd now s)) =
          Some (int (length (filter (\<lambda>t. t_state t = SKIPPED) (map snd (testResults s)))))"
    by (simp add: handleRunEnd_def run Let_def count_state_def)
  show "map_option r_pending (currentRun (handleRunEnd now s)) =
          Some (int (length (filter (\<lambda>t. t_state t = PENDING) (map snd (testResults s)))))"
    by (simp add: handleRunEnd_def run Let_def count_state_def)
  show "run_status (handleRunEnd now s) =
          Some (if \<exists>t \<in> set (map snd (testResults s)). t_state t = FAILED
                then ''failed'' else ''completed'')"
    by (simp add: run_status_end run)
next
  show "in_phase (phase_of env evs) (after_events env t0 evs)"
    by (rule in_phase_after)
qed

subsection \<open>A run of two tests, one failing\<close>

lemma one_run_states:
  "map (\<lambda>kv. t_state (snd kv)) (testResults (after_events plain_env 0 one_run)) =
     [''passed'', ''failed'']"
  by code_simp

lemma one_run_current: "currentRun (after_events plain_env 0 one_run) \<noteq> None"
  by code_simp

lemma count_by_states:
  "length (filter (\<lambda>t. t_state t = x) ts) = length (filter (\<lambda>u. u = x) (map t_state ts))"
  by (induction ts) simp_all

lemma mem_map_ex: "x \<in> set (map f xs) \<Longrightarrow> \<exists>t \<in> set xs. f t = x"
  by auto

theorem run_end_finalizes_witness:
  "phase_of plain_env one_run = Running
   \<and> run_status (after_events plain_env 0 one_run) = Some ''running''
   \<and> phase_of plain_env (one_run @ [End 1030]) = Ended
   \<and> run_status (after_events plain_env 0 (one_run @ [End 1030])) = Some ''failed''
   \<and> map_option r_totalTests (currentRun (after_events plain_env 0 (one_run @ [End 1030]))) = Some 2
   \<and> map_option r_passed (currentRun (after_events plain_env 0 (one_run @ [End 1030]))) = Some 1
   \<and> map_option r_failed (currentRun (after_events plain_env 0 (one_run @ [End 1030]))) = Some 1
   \<and> map_option r_skipped (currentRun (after_events plain_env 0 (one_run @ [End 1030]))) = Some 0
   \<and> map_option r_pending (currentRun (after_events plain_env 0 (one_run @ [End 1030]))) = Some 0"
proof -
  define s where "s = after_events plain_env 0 one_run"
  have ph: "phase_of plain_env one_run = Running"
    by code_simp
  have ph': "phase_of plain_env (one_run @ [End 1030]) = Ended"
    by code_simp
  have e: "after_events plain_env 0 (one_run @ [End 1030]) = handleRunEnd 1030 s"
    by (simp add: after_events_def s_def)
  have st: "map t_state (map snd (testResults s)) = [''passed'', ''failed'']"
    using one_run_states unfolding s_def by (simp only: map_map comp_def)
  have c: "currentRun s \<noteq> None"
    unfolding s_def by (rule one_run_current)
  have len: "length (testResults s) = 2"
    using arg_cong [OF st, of length] by simp
  have ex: "\<exists>t \<in> set (map snd (testResults s)). t_state t = FAILED"
  proof -
    have "''failed'' \<in> set (map t_state (map snd (testResults s)))"
      unfolding st by simp
    then show ?thesis
      unfolding FAILED_def by (rule mem_map_ex)
  qed
  note t = run_end_finalizes [of s 1030 plain_env one_run 0, folded s_def]
  from t have r: "in_phase (phase_of plain_env one_run) s"
    by (rule conjunct2)
  from t c have a: "map_option r_totalTests (currentRun (handleRunEnd 1030 s)) = Some 2"
    "map_option r_passed (currentRun (handleRunEnd 1030 s)) = Some 1"
    "map_option r_failed (currentRun (handleRunEnd 1030 s)) = Some 1"
    "map_option r_skipped (currentRun (handleRunEnd 1030 s)) = Some 0"
    "map_option r_pending (currentRun (handleRunEnd 1030 s)) = Some 0"
    by (simp_all add: count_by_states st len PASSED_def FAILED_def SKIPPED_def PENDING_def
        del: map_map)
  from t c ex have b: "run_status (handleRunEnd 1030 s) = Some ''failed''"
    by (simp del: map_map set_map)
  from r have d: "run_status s = Some ''running''"
    by (simp add: ph in_phase_def)
  show ?thesis
    unfolding e s_def [symmetric] using ph ph' a b d by simp
qed

subsection \<open>Rooms of the hub\<close>

lemma run_room_inj [simp]: "run_room a = run_room b \<longleftrightarrow> a = b"
  by (simp add: run_room_def)

lemma run_room_not_fixed [simp]:
  "run_room a \<noteq> ''test-runs''" "run_room a \<noteq> ''test-updates''"
  "''test-runs'' \<noteq> run_room a" "''test-updates'' \<noteq> run_room a"
  by (auto simp: run_room_def)

lemma members_of_room:
  "distinct xs \<Longrightarrow>
     filter (\<lambda>c. c = s) (map snd (filter (\<lambda>(r', c). r' = r) xs)) =
       (if (r, s) \<in> set xs then [s] else [])"
proof (induction xs)
  case Nil
  then show ?case by simp
next
  case (Cons x xs)
  obtain r' c where x: "x = (r', c)" by (cases x)
  from Cons.prems have d: "distinct xs" and n: "x \<notin> set xs"
    by simp_all
  show ?case
    using Cons.IH [OF d] n by (auto simp: x)
qed

lemma received_emitToRoom:
  assumes "distinct (rooms h)"
  shows "received s r (emitToRoom room event data h) =
     received s r h @ (if room = r \<and> (r, s) \<in> set (rooms h) then [(event, data)] else [])"
proof -
  let ?members = "map snd (filter (\<lambda>(r', c). r' = room) (rooms h))"
  have "map (\<lambda>m. (dl_event m, dl_payload m))
          (filter (\<lambda>m. dl_to m = s \<and> dl_via m = Room r)
             (map (\<lambda>c. \<lparr>dl_to = c, dl_via = Room room, dl_event = event, dl_payload = data\<rparr>)
                ?members)) =
        (if room = r then map (\<lambda>c. (event, data)) (filter (\<lambda>c. c = s) ?members) else [])"
    by (simp add: filter_map comp_def)
  then show ?thesis
    using members_of_room [OF assms, of s room]
    by (auto simp: received_def emitToRoom_def)
qed

lemma received_emit [simp]: "received s r (emit event data h) = received s r h"
  by (simp add: received_def emit_def filter_map comp_def)

lemma received_socket_emit [simp]: "received s r (socket_emit c event data h) = received s r h"
  by (simp add: received_def socket_emit_def)

lemma rooms_emits [simp]:
  "rooms (emitToRoom room event data h) = rooms h"
  "rooms (emit event data h) = rooms h"
  "rooms (socket_emit c event data h) = rooms h"
  "connectedClients (emitToRoom room event data h) = connectedClients h"
  "connectedClients (emit event data h) = connectedClients h"
  "connectedClients (socket_emit c event data h) = connectedClients h"
  by (simp_all add: emitToRoom_def emit_def socket_emit_def)

lemma agrees_emits [simp]:
  "agrees s runId m (emitToRoom room event data h) = agrees s runId m h"
  "agrees s runId m (emit event data h) = agrees s runId m h"
  "agrees s runId m (socket_emit c event data h) = agrees s runId m h"
  by (simp_all add: agrees_def)

lemma received_membership [simp]:
  "received s r (handleClientConnection c h) = received s r h"
  "received s r (handleClientDisconnection c h) = received s r h"
  "received s r (when_connected c (socket_join c room) h) = received s r h"
  "received s r (when_connected c (socket_leave c room) h) = received s r h"
  by (simp_all add: received_def handleClientConnection_def handleClientDisconnection_def
      when_connected_def socket_join_def socket_leave_def)

lemma agrees_connection:
  "agrees s runId m h \<Longrightarrow>
     agrees s runId (if c = s \<and> m = Offline then Online False else m) (handleClientConnection c h)"
  by (cases m) (auto simp: agrees_def handleClientConnection_def set_add_def)

lemma agrees_disconnection:
  "agrees s runId m h \<Longrightarrow>
     agrees s runId (if c = s then Offline else m) (handleClientDisconnection c h)"
  by (cases m) (auto simp: agrees_def handleClientDisconnection_def)

lemma agrees_join:
  "agrees s runId m h \<Longrightarrow>
     agrees s runId
       (if c = s \<and> room = run_room runId \<and> m \<noteq> Offline then Online True else m)
       (when_connected c (socket_join c room) h)"
  by (cases m) (auto simp: agrees_def when_connected_def socket_join_def set_add_def)

lemma agrees_leave:
  "agrees s runId m h \<Longrightarrow>
     agrees s runId
       (if c = s \<and> room = run_room runId \<and> m \<noteq> Offline then Online False else m)
       (when_connected c (socket_leave c room) h)"
  by (cases m) (auto simp: agrees_def when_connected_def socket_leave_def distinct_removeAll)

lemma hub_step:
  assumes "agrees s runId m h"
  shows "agrees s runId (member_step s runId m step) (hub_do h step)
       \<and> received s (run_room runId) (hub_do h step) =
           received s (run_room runId) h @ (if m = Online True then published runId step else [])"
proof -
  from assms have d: "distinct (rooms h)"
    and mem: "(run_room runId, s) \<in> set (rooms h) \<longleftrightarrow> m = Online True"
    by (simp_all add: agrees_def)
  show ?thesis
  proof (cases step)
    case (Connects c)
    then show ?thesis using agrees_connection [OF assms, of c] by simp
  next
    case (Disconnects c)
    then show ?thesis using agrees_disconnection [OF assms, of c] by simp
  next
    case (Subscribe_test_runs c)
    then show ?thesis using agrees_join [OF assms, of c "''test-runs''"] by simp
  next
    case (Subscribe_test_run c rid)
    then show ?thesis using agrees_join [OF assms, of c "run_room rid"] by simp
  next
    case (Unsubscribe_test_run c rid)
    then show ?thesis using agrees_leave [OF assms, of c "run_room rid"] by simp
  next
    case (Answer c event data)
    then show ?thesis using assms by simp
  next
    case (Emit event data)
    then show ?thesis using assms by simp
  next
    case (Emit_to_room room event data)
    then show ?thesis using assms d mem by (auto simp: received_emitToRoom)
  next
    case (Test_run_started testRun)
    then show ?thesis
      using assms d by (simp add: emitTestRunStarted_def received_emitToRoom)
  next
    case (Test_run_completed rid testRun)
    then show ?thesis
      using assms d mem by (auto simp: emitTestRunCompleted_def received_emitToRoom)
  next
    case (Test_started rid testResult)
    then show ?thesis
      using assms d mem by (auto simp: emitTestStarted_def received_emitToRoom)
  next
    case (Test_completed rid testResult)
    then show ?thesis
      using assms d mem by (auto simp: emitTestCompleted_def received_emitToRoom)
  next
    case (Screenshot_taken rid shot)
    then show ?thesis
      using assms d mem by (auto simp: emitScreenshotTaken_def received_emitToRoom)
  qed
qed

lemma hub_steps:
  "agrees s runId m h \<Longrightarrow>
     received s (run_room runId) (foldl hub_do h steps) =
       received s (run_room runId) h @ expected s runId m steps"
proof (induction steps arbitrary: m h)
  case Nil
  then show ?case by simp
next
  case (Cons step steps)
  from hub_step [OF Cons.prems, of step]
  have a: "agrees s runId (member_step s runId m step) (hub_do h step)"
    and r: "received s (run_room runId) (hub_do h step) =
      received s (run_room runId) h @ (if m = Online True then published runId step else [])"
    by simp_all
  show ?case
    using Cons.IH [OF a] r by simp
qed

text \<open>
  C8. For every session and every run, whatever happens at the hub (from its start, in any
  order and with any other sessions and rooms), the messages the session gets through the
  room of the run are exactly, and in order, the messages published to that room while the
  session was connected and subscribed to it: nothing published before it subscribed, after
  it unsubscribed or after it disconnected, and nothing again after it reconnects until it
  subscribes again.
\<close>

theorem room_delivery:
  "received s (run_room runId) (hub_after steps) = expected s runId Offline steps"
proof -
  have "agrees s runId Offline (new_hub :: 'a hub)"
    by (simp add: agrees_def new_hub_def)
  from hub_steps [OF this, of steps] show ?thesis
    by (simp add: hub_after_def received_def new_hub_def)
qed

theorem room_delivery_witness:
  "received ''s'' (run_room ''r1'') (hub_after hub_trace) =
     [(''test:started'', 2), (''screenshot:taken'', 5)]
   \<and> membership_after ''s'' ''r1'' (take 3 hub_trace) = Online False
   \<and> membership_after ''s'' ''r1'' (take 6 hub_trace) = Online True
   \<and> membership_after ''s'' ''r1'' (take 7 hub_trace) = Offline
   \<and> membership_after ''s'' ''r1'' (take 11 hub_trace) = Online False
   \<and> membership_after ''s'' ''r1'' (take 13 hub_trace) = Online True
   \<and> membership_after ''s'' ''r1'' hub_trace = Online False"
proof -
  have e: "expected ''s'' ''r1'' Offline hub_trace =
      [(''test:started'', 2), (''screenshot:taken'', 5)]"
    by code_simp
  have m: "membership_after ''s'' ''r1'' (take 3 hub_trace) = Online False"
    "membership_after ''s'' ''r1'' (take 6 hub_trace) = Online True"
    "membership_after ''s'' ''r1'' (take 7 hub_trace) = Offline"
    "membership_after ''s'' ''r1'' (take 11 hub_trace) = Online False"
    "membership_after ''s'' ''r1'' (take 13 hub_trace) = Online True"
    "membership_after ''s'' ''r1'' hub_trace = Online False"
    by code_simp+
  show ?thesis
    using room_delivery [of "''s''" "''r1''" hub_trace] e m by simp
qed

subsection \<open>Flaky tests\<close>

lemma ge_iff:
  "as_int_opt (r c) \<noteq> None \<Longrightarrow> where_clause [Ge c k] r \<longleftrightarrow> k \<le> as_int (r c)"
  by (cases "r c") (simp_all add: where_clause_iff)

lemma window_rows:
  assumes "timed d"
  shows "filter (where_clause [Ge ''start_time'' (sql_date_days_ago now 30)]) (test_results d) =
         filter (in_window now) (test_results d)"
proof (rule filter_cong [OF refl])
  fix r assume "r \<in> set (test_results d)"
  with assms have "as_int_opt (r ''start_time'') \<noteq> None"
    by (simp add: timed_def)
  then show "where_clause [Ge ''start_time'' (sql_date_days_ago now 30)] r = in_window now r"
    by (simp add: ge_iff in_window_def)
qed

lemma members_results_of:
  "filter (\<lambda>r. group_key r = k) (filter (in_window now) (test_results d)) = results_of now d k"
  by (simp add: results_of_def conj_commute)

lemma count_failed_eq: "count_failed rows = length (failed_of rows)"
  by (simp add: count_failed_def failed_of_def in_texts_def)

lemma flaky_group_eq:
  "flaky_group (filter (in_window now) (test_results d)) k =
     \<lparr>test_title = fst k, spec_file = snd k,
      total_runs = length (results_of now d k),
      failures = length (failed_of (results_of now d k)),
      last_failure_time = max_time (results_of now d k),
      flaky_rate = ratio (results_of now d k)\<rparr>"
  unfolding flaky_group_def Let_def members_results_of count_failed_eq ratio_def
  by (rule refl)

lemma having_flaky:
  "having t (flaky_group (filter (in_window now) (test_results d)) k) = flaky t (results_of now d k)"
  by (simp add: flaky_group_eq having_def flaky_def)

lemma row_key_group:
  "row_key (flaky_group (filter (in_window now) (test_results d)) k) = k"
  by (simp add: row_key_def flaky_group_def Let_def)

lemma findFlaky_rows_eq:
  assumes "timed d"
  shows "findFlaky_rows t now d =
     sort_by flaky_le
       (map (flaky_group (filter (in_window now) (test_results d)))
          (filter (\<lambda>k. flaky t (results_of now d k))
             (remdups (map group_key (filter (in_window now) (test_results d))))))"
  by (simp add: findFlaky_rows_def Let_def window_rows [OF assms] filter_map comp_def having_flaky)

lemma keys_findFlaky_rows:
  assumes "timed d"
  shows "mset (map row_key (findFlaky_rows t now d)) =
     mset (filter (\<lambda>k. flaky t (results_of now d k))
             (remdups (map group_key (filter (in_window now) (test_results d)))))"
proof -
  have "mset (map row_key (findFlaky_rows t now d)) =
      image_mset row_key (mset (findFlaky_rows t now d))"
    by simp
  also have "\<dots> = image_mset row_key
      (mset (map (flaky_group (filter (in_window now) (test_results d)))
          (filter (\<lambda>k. flaky t (results_of now d k))
             (remdups (map group_key (filter (in_window now) (test_results d)))))))"
    by (simp only: findFlaky_rows_eq [OF assms] mset_sort_by)
  also have "\<dots> = mset (filter (\<lambda>k. flaky t (results_of now d k))
             (remdups (map group_key (filter (in_window now) (test_results d)))))"
    by (simp add: multiset.map_comp comp_def row_key_group del: mset_filter)
  finally show ?thesis .
qed

lemma flaky_has_key:
  assumes "flaky t (results_of now d k)"
  shows "k \<in> set (map group_key (filter (in_window now) (test_results d)))"
proof -
  from assms have "results_of now d k \<noteq> []"
    by (auto simp: flaky_def)
  then obtain r where "r \<in> set (results_of now d k)"
    by (cases "results_of now d k") auto
  then show ?thesis
    by (auto simp: results_of_def)
qed

lemma flaky_le_total: "flaky_le a b \<or> flaky_le b a"
  by (auto simp: flaky_le_def)

lemma flaky_le_trans: "flaky_le a b \<Longrightarrow> flaky_le b c \<Longrightarrow> flaky_le a c"
  by (auto simp: flaky_le_def)


lemma flaky_db_counts:
  "timed flaky_db"
  "length (results_of noon_100 flaky_db adds_key) = 10"
  "length (failed_of (results_of noon_100 flaky_db adds_key)) = 2"
  "length (results_of noon_100 flaky_db divides_key) = 5"
  "length (failed_of (results_of noon_100 flaky_db divides_key)) = 5"
  by code_simp+



subsection \<open>Filters of the result repository\<close>

lemma like_percent:
  "like_match (CHR ''%'' # ps) t \<longleftrightarrow> (\<exists>u v. t = u @ v \<and> like_match ps v)"
proof (induction t)
  case Nil
  then show ?case by simp
next
  case (Cons x xs)
  show ?case
    by (simp add: Cons.IH Cons_eq_append_conv) blast
qed

lemma like_all: "like_match [CHR ''%''] t"
  by (induction t) simp_all

lemma like_plain:
  "no_wildcards p \<Longrightarrow>
     like_match (p @ q) t \<longleftrightarrow>
       (\<exists>t1 t2. t = t1 @ t2 \<and> map ascii_lower t1 = map ascii_lower p \<and> like_match q t2)"
proof (induction p arbitrary: t)
  case Nil
  then show ?case by simp
next
  case (Cons c cs)
  then have c: "c \<noteq> CHR ''%''" "c \<noteq> CHR ''_''" and cs: "no_wildcards cs"
    by (auto simp: no_wildcards_def)
  show ?case
  proof (cases t)
    case Nil
    then show ?thesis using c by simp
  next
    case (Cons x xs)
    have "like_match ((c # cs) @ q) (x # xs) \<longleftrightarrow>
        ascii_lower c = ascii_lower x \<and> like_match (cs @ q) xs"
      using c by simp
    also have "\<dots> \<longleftrightarrow> ascii_lower c = ascii_lower x \<and>
        (\<exists>t1 t2. xs = t1 @ t2 \<and> map ascii_lower t1 = map ascii_lower cs \<and> like_match q t2)"
      by (simp only: Cons.IH [OF cs])
    also have "\<dots> \<longleftrightarrow>
        (\<exists>t1 t2. x # xs = t1 @ t2 \<and> map ascii_lower t1 = map ascii_lower (c # cs) \<and> like_match q t2)"
      (is "?l \<longleftrightarrow> ?r")
    proof
      assume ?l
      then obtain t1 t2 where "ascii_lower c = ascii_lower x" "xs = t1 @ t2"
        "map ascii_lower t1 = map ascii_lower cs" "like_match q t2"
        by blast
      then have "x # xs = (x # t1) @ t2 \<and> map ascii_lower (x # t1) = map ascii_lower (c # cs)
          \<and> like_match q t2"
        by simp
      then show ?r by blast
    next
      assume ?r
      then obtain t1 t2 where t: "x # xs = t1 @ t2"
        "map ascii_lower t1 = map ascii_lower (c # cs)" "like_match q t2"
        by blast
      from t(2) obtain y ys where y: "t1 = y # ys"
        by (cases t1) auto
      with t have "ascii_lower c = ascii_lower x" "xs = ys @ t2"
        "map ascii_lower ys = map ascii_lower cs"
        by auto
      with t(3) show ?l by blast
    qed
    finally show ?thesis using Cons by simp
  qed
qed

lemma like_found:
  assumes "no_wildcards s"
  shows "like_match (CHR ''%'' # s @ [CHR ''%'']) t \<longleftrightarrow>
         sublist (map ascii_lower s) (map ascii_lower t)"
proof
  assume "like_match (CHR ''%'' # s @ [CHR ''%'']) t"
  then obtain u t1 t2 where "t = u @ t1 @ t2" "map ascii_lower t1 = map ascii_lower s"
    by (auto simp: like_percent like_plain [OF assms])
  then have "map ascii_lower t = map ascii_lower u @ map ascii_lower s @ map ascii_lower t2"
    by simp
  then show "sublist (map ascii_lower s) (map ascii_lower t)"
    unfolding sublist_def by blast
next
  assume "sublist (map ascii_lower s) (map ascii_lower t)"
  then obtain ps ss where "map ascii_lower t = ps @ map ascii_lower s @ ss"
    unfolding sublist_def by blast
  then have "\<exists>u v. t = u @ v \<and> ps = map ascii_lower u
      \<and> map ascii_lower s @ ss = map ascii_lower v"
    by (simp only: map_eq_append_conv)
  then obtain u v where u: "t = u @ v" "map ascii_lower v = map ascii_lower s @ ss"
    by auto
  from u(2) have "\<exists>t1 t2. v = t1 @ t2 \<and> map ascii_lower s = map ascii_lower t1
      \<and> ss = map ascii_lower t2"
    by (simp only: map_eq_append_conv)
  then obtain t1 t2 where v: "v = t1 @ t2" "map ascii_lower t1 = map ascii_lower s"
    by auto
  have "like_match (s @ [CHR ''%'']) v"
    unfolding like_plain [OF assms] using v like_all by blast
  then show "like_match (CHR ''%'' # s @ [CHR ''%'']) t"
    unfolding like_percent using u by blast
qed

lemma like_search:
  "no_wildcards s \<Longrightarrow> eval_cond r (Like c (search_pattern s)) = Some True \<longleftrightarrow> found s (r c)"
  by (cases "cell_text (r c)") (simp_all add: search_pattern_def found_def like_found)

lemma no_wildcards_quoted: "no_wildcards tag \<Longrightarrow> no_wildcards (quoted tag)"
  by (simp add: no_wildcards_def quoted_def)

lemma like_tag:
  assumes "no_wildcards tag"
  shows "eval_cond r (Like ''tags'' (tag_pattern tag)) = Some True \<longleftrightarrow> found (quoted tag) (r ''tags'')"
proof -
  have "tag_pattern tag = CHR ''%'' # quoted tag @ [CHR ''%'']"
    by (simp add: tag_pattern_def quoted_def)
  then show ?thesis
    by (cases "cell_text (r ''tags'')")
      (simp_all add: found_def like_found [OF no_wildcards_quoted [OF assms]])
qed

lemma sql_or_true: "sql_or a b = Some True \<longleftrightarrow> a = Some True \<or> b = Some True"
  by (simp add: sql_or_def)

lemma or_list_true:
  "foldr sql_or (map h xs) (Some False) = Some True \<longleftrightarrow> (\<exists>x \<in> set xs. h x = Some True)"
  by (induction xs) (auto simp: sql_or_def split: if_splits)

lemma where_cond_in: "where_clause (cond_in c xs) r = text_in c xs r"
  by (cases xs; cases "cell_text (r c)")
    (auto simp: cond_in_def text_in_def where_clause_iff in_texts_def)

lemma where_num:
  assumes "r c = SNull \<or> as_int_opt (r c) \<noteq> None"
  shows "where_clause [Ge c k] r = num_cell c (\<lambda>n. k \<le> n) r"
    and "where_clause [Le c k] r = num_cell c (\<lambda>n. n \<le> k) r"
    and "where_clause [Gt c k] r = num_cell c (\<lambda>n. k < n) r"
    and "where_clause [And2 (Ge c k) (Le c l)] r = num_cell c (\<lambda>n. k \<le> n \<and> n \<le> l) r"
  using assms by (cases "r c"; auto simp: where_clause_iff num_cell_def sql_and_def)+

lemma where_search:
  assumes "no_wildcards s"
  shows "where_clause [Or_list [Like ''title'' (search_pattern s), Like ''full_title'' (search_pattern s),
             Like ''error_message'' (search_pattern s)]] r \<longleftrightarrow>
         found s (r ''title'') \<or> found s (r ''full_title'') \<or> found s (r ''error_message'')"
  by (simp add: where_clause_iff sql_or_true like_search [OF assms] del: eval_cond.simps(7))

lemma where_tags:
  assumes "\<forall>tag \<in> set ts. no_wildcards tag"
  shows "where_clause [Or_list (map (\<lambda>tag. Like ''tags'' (tag_pattern tag)) ts)] r \<longleftrightarrow>
         (\<exists>tag \<in> set ts. found (quoted tag) (r ''tags''))"
proof -
  have "where_clause [Or_list (map (\<lambda>tag. Like ''tags'' (tag_pattern tag)) ts)] r \<longleftrightarrow>
        (\<exists>tag \<in> set ts. eval_cond r (Like ''tags'' (tag_pattern tag)) = Some True)"
    by (simp add: where_clause_iff or_list_true comp_def del: eval_cond.simps(7))
  also have "\<dots> \<longleftrightarrow> (\<exists>tag \<in> set ts. found (quoted tag) (r ''tags''))"
    using assms like_tag by blast
  finally show ?thesis .
qed

lemma where_matches:
  assumes num: "\<forall>c \<in> set [''duration'', ''retries'', ''start_time'']. r c = SNull \<or> as_int_opt (r c) \<noteq> None"
    and pl: "plain f"
  shows "where_clause (findWithFilters_conditions f) r = matches f r"
proof -
  have n: "r ''duration'' = SNull \<or> as_int_opt (r ''duration'') \<noteq> None"
    "r ''retries'' = SNull \<or> as_int_opt (r ''retries'') \<noteq> None"
    "r ''start_time'' = SNull \<or> as_int_opt (r ''start_time'') \<noteq> None"
    using num by simp_all
  have du: "where_clause
        (case f_duration f of
           Some (mn, mx) \<Rightarrow>
             (case mn of Some k \<Rightarrow> [Ge ''duration'' k] | None \<Rightarrow> [])
             @ (case mx of Some k \<Rightarrow> [Le ''duration'' k] | None \<Rightarrow> [])
         | None \<Rightarrow> []) r =
      (case f_duration f of
         None \<Rightarrow> True
       | Some (mn, mx) \<Rightarrow>
           (case mn of None \<Rightarrow> True | Some k \<Rightarrow> num_cell ''duration'' (\<lambda>n. k \<le> n) r)
           \<and> (case mx of None \<Rightarrow> True | Some k \<Rightarrow> num_cell ''duration'' (\<lambda>n. n \<le> k) r))"
    by (simp add: where_clause_append where_clause_Nil where_num [where r = r and c = "''duration''", OF n(1)]
        split: option.splits prod.splits)
  have se: "where_clause
        (case f_search f of
           Some s \<Rightarrow>
             if s \<noteq> []
             then (let searchTerm = search_pattern s
                   in [Or_list [Like ''title'' searchTerm, Like ''full_title'' searchTerm,
                                Like ''error_message'' searchTerm]])
             else []
         | None \<Rightarrow> []) r =
      (case f_search f of
         None \<Rightarrow> True
       | Some s \<Rightarrow>
           s = [] \<or> found s (r ''title'') \<or> found s (r ''full_title'')
           \<or> found s (r ''error_message''))"
  proof (cases "f_search f")
    case None
    then show ?thesis by (simp add: where_clause_Nil)
  next
    case (Some s)
    with pl have "no_wildcards s"
      by (simp add: plain_def)
    from where_search [OF this, of r] show ?thesis
      by (simp add: Some Let_def where_clause_Nil)
  qed
  have ta: "where_clause
        (case f_tags f of
           Some ts \<Rightarrow>
             if length ts > 0 then [Or_list (map (\<lambda>tag. Like ''tags'' (tag_pattern tag)) ts)] else []
         | None \<Rightarrow> []) r =
      (case f_tags f of
         None \<Rightarrow> True
       | Some ts \<Rightarrow> ts = [] \<or> (\<exists>tag \<in> set ts. found (quoted tag) (r ''tags'')))"
  proof (cases "f_tags f")
    case None
    then show ?thesis by (simp add: where_clause_Nil)
  next
    case (Some ts)
    with pl have "\<forall>tag \<in> set ts. no_wildcards tag"
      by (simp add: plain_def)
    from where_tags [OF this, of r] show ?thesis
      by (simp add: Some where_clause_Nil)
  qed
  have re: "where_clause
        (case f_retries f of Some b \<Rightarrow> if b then [Gt ''retries'' 0] else [] | None \<Rightarrow> []) r =
      (case f_retries f of
         None \<Rightarrow> True
       | Some b \<Rightarrow> if b then num_cell ''retries'' (\<lambda>n. 0 < n) r else True)"
    by (simp add: where_clause_Nil where_num [where r = r and c = "''retries''", OF n(2)] split: option.splits)
  have sc: "where_clause
        (case f_hasScreenshots f of
           Some b \<Rightarrow> if b then [Is_not_null ''screenshot_path''] else [Is_null ''screenshot_path'']
         | None \<Rightarrow> []) r =
      (case f_hasScreenshots f of
         None \<Rightarrow> True
       | Some b \<Rightarrow> (r ''screenshot_path'' \<noteq> SNull) = b)"
    by (cases "f_hasScreenshots f") (auto simp: where_clause_iff)
  have da: "where_clause
        (case f_dateRange f of
           Some (s, e) \<Rightarrow> [And2 (Ge ''start_time'' s) (Le ''start_time'' e)]
         | None \<Rightarrow> []) r =
      (case f_dateRange f of
         None \<Rightarrow> True
       | Some (s, e) \<Rightarrow> num_cell ''start_time'' (\<lambda>n. s \<le> n \<and> n \<le> e) r)"
    by (simp add: where_clause_Nil where_num [where r = r and c = "''start_time''", OF n(3)] split: option.splits prod.splits)
  show ?thesis
    unfolding findWithFilters_conditions_def matches_def where_clause_append
      where_cond_in du se ta re sc da
    by (rule refl)
qed

lemma filter_matches:
  assumes "numbers_ok d" and "plain f"
  shows "filter (where_clause (findWithFilters_conditions f)) (test_results d) =
         filter (matches f) (test_results d)"
proof (rule filter_cong [OF refl])
  fix r assume "r \<in> set (test_results d)"
  with assms(1) have
    "\<forall>c \<in> set [''duration'', ''retries'', ''start_time'']. r c = SNull \<or> as_int_opt (r c) \<noteq> None"
    unfolding numbers_ok_def by blast
  then show "where_clause (findWithFilters_conditions f) r = matches f r"
    using assms(2) by (rule where_matches)
qed

text \<open>
  Claim C4, as amended. For a store whose numeric columns hold numbers and a filter without
  the \<^verbatim>\<open>LIKE\<close> wildcards, \<^verbatim>\<open>findWithFilters\<close> without a limit returns exactly the results, each as
  often as it is stored, that satisfy all the predicates the filter supplies: state, file and
  browser among the given ones when the list is not empty, duration within the given bounds,
  the search text found in the title, the full title or the error message without regard to
  the case of ASCII letters, one of the given tags found in double quotes in the serialized
  tags, more than zero retries when \<^verbatim>\<open>retries\<close> is true (nothing when it is false), a screenshot
  path present or absent as \<^verbatim>\<open>hasScreenshots\<close> says, and the start time within the date range.
  They come in descending order of the start time; a limit and an offset cut a page from this
  list; and the entities returned are the rows read by \<^verbatim>\<open>mapRowToTestResult\<close>.
\<close>

theorem findWithFilters_matches:
  assumes "numbers_ok d" and "plain f"
  shows "mset (findWithFilters_rows f None None d) = mset (filter (matches f) (test_results d))
    \<and> sorted_wrt (desc_le ''start_time'') (findWithFilters_rows f None None d)
    \<and> findWithFilters_rows f limit offset d = page limit offset (findWithFilters_rows f None None d)
    \<and> findWithFilters f limit offset d =
        map mapRowToTestResult (page limit offset (findWithFilters_rows f None None d))"
proof (intro conjI)
  have r: "findWithFilters_rows f None None d =
      order_by_desc ''start_time'' (filter (matches f) (test_results d))"
    by (simp add: findWithFilters_rows_def page_def filter_matches [OF assms])
  show "mset (findWithFilters_rows f None None d) = mset (filter (matches f) (test_results d))"
    unfolding r by (rule mset_order_by_desc)
  show "sorted_wrt (desc_le ''start_time'') (findWithFilters_rows f None None d)"
    unfolding r by (rule sorted_order_by_desc)
  show p: "findWithFilters_rows f limit offset d = page limit offset (findWithFilters_rows f None None d)"
    by (simp add: findWithFilters_rows_def page_def)
  show "findWithFilters f limit offset d =
        map mapRowToTestResult (page limit offset (findWithFilters_rows f None None d))"
    by (simp only: findWithFilters_def p)
qed

lemma mixed_db_ok: "numbers_ok mixed_db" "plain failed_filter"
  by code_simp+

lemma search_db_ok: "numbers_ok search_db" "plain smoke_filter"
  by code_simp+

lemma mixed_db_failed:
  "map (\<lambda>r. r ''id'') (filter (matches failed_filter) (test_results mixed_db)) = [SText ''f1'', SText ''f2'']"
  "map t_id (findWithFilters failed_filter None None mixed_db) = [''f2'', ''f1'']"
  "map t_startTime (findWithFilters failed_filter None None mixed_db) = [500, 300]"
  "map t_state (findWithFilters failed_filter None None mixed_db) = [''failed'', ''failed'']"
  by code_simp+

lemma search_db_smoke:
  "map (\<lambda>r. r ''id'') (filter (matches smoke_filter) (test_results search_db)) = [SText ''s1'']"
  "map t_id (findWithFilters smoke_filter None None search_db) = [''s1'']"
  by code_simp+

theorem findWithFilters_matches_witness:
  "numbers_ok mixed_db \<and> plain failed_filter
   \<and> mset (findWithFilters_rows failed_filter None None mixed_db) =
       mset (filter (matches failed_filter) (test_results mixed_db))
   \<and> sorted_wrt (desc_le ''start_time'') (findWithFilters_rows failed_filter None None mixed_db)
   \<and> map (\<lambda>r. r ''id'') (filter (matches failed_filter) (test_results mixed_db)) =
       [SText ''f1'', SText ''f2'']
   \<and> map t_id (findWithFilters failed_filter None None mixed_db) = [''f2'', ''f1'']
   \<and> map t_startTime (findWithFilters failed_filter None None mixed_db) = [500, 300]
   \<and> map t_state (findWithFilters failed_filter None None mixed_db) = [''failed'', ''failed'']
   \<and> numbers_ok search_db \<and> plain smoke_filter
   \<and> mset (findWithFilters_rows smoke_filter None None search_db) =
       mset (filter (matches smoke_filter) (test_results search_db))
   \<and> map (\<lambda>r. r ''id'') (filter (matches smoke_filter) (test_results search_db)) = [SText ''s1'']
   \<and> map t_id (findWithFilters smoke_filter None None search_db) = [''s1'']"
  using findWithFilters_matches [OF mixed_db_ok, of None None]
    findWithFilters_matches [OF search_db_ok, of None None]
    mixed_db_ok search_db_ok mixed_db_failed search_db_smoke
  by simp

theorem findWithFilters_counterexample:
  "map t_id (findWithFilters (no_filter\<lparr>f_search := Some ''ADDS''\<rparr>) None None search_db) = [''s1'']
   \<and> filter (substring_search ''ADDS'') (test_results search_db) = []
   \<and> map t_id (findWithFilters (no_filter\<lparr>f_retries := Some False\<rparr>) None None search_db) =
       [''s2'', ''s1'']
   \<and> map (\<lambda>r. r ''id'') (filter (\<lambda>r. \<not> has_retries r) (test_results search_db)) = [SText ''s2'']"
  by code_simp


end
